theory Spec2Isabelle
  imports Main
begin

section \<open>Values and rows\<close>

text \<open>
  The service \<^verbatim>\<open>AuthService\<close> (src/services/authService.js) works on a relational store
  through Drizzle. A table is modelled as the list of its rows, a row as a record with one
  field per column the service reads or writes (a timestamp column that only the
  store fills and nothing reads is left out), and a \<^verbatim>\<open>serial\<close> primary key as a counter
  kept beside the table. JSON columns and JSON responses are values of \<open>json\<close>.
  Timestamps are milliseconds since the epoch.
\<close>

datatype json =
    JNull
  | JBool bool
  | JNum int
  | JStr string
  | JArr "json list"
  | JObj "(string \<times> json) list"

text \<open>Table \<^verbatim>\<open>users\<close> of the schema.\<close>

record user =
  u_id :: nat
  u_email :: string
  u_username :: string
  u_password :: string
  u_avatar :: string
  u_isVerified :: bool
  u_preferences :: json
  u_createdAt :: int
  u_updatedAt :: int

text \<open>
  Tables \<^verbatim>\<open>email_verification_tokens\<close> and \<^verbatim>\<open>password_reset_tokens\<close> have the same
  columns.
\<close>

record token_row =
  t_id :: nat
  t_userId :: nat
  t_token :: string
  t_expiresAt :: int
  t_used :: bool

text \<open>Table \<^verbatim>\<open>daily_signups\<close>: one row per UTC date key \<^verbatim>\<open>YYYY-MM-DD\<close>.\<close>

record signup_row =
  ds_id :: nat
  ds_date :: string
  ds_count :: int

text \<open>
  Entries of the three client collections as the client submits them. A key the client
  left out is \<open>None\<close>; \<open>fi_extra\<close>, \<open>wi_extra\<close> stand for the remaining keys of the
  object, which the service stores and returns untouched.
\<close>

record fav_item =
  fi_animeId :: "string option"
  fi_id :: "string option"
  fi_extra :: json

record watch_item =
  wi_animeId :: "string option"
  wi_id :: "string option"
  wi_status :: "string option"
  wi_extra :: json

record history_item =
  hi_animeId :: "string option"
  hi_episodeId :: "string option"
  hi_episodeNumber :: "int option"
  hi_progress :: "int option"
  hi_duration :: "int option"
  hi_completed :: "bool option"
  hi_watchedAt :: "int option"

text \<open>Tables \<^verbatim>\<open>favorites\<close>, \<^verbatim>\<open>watchlist\<close> and \<^verbatim>\<open>watch_history\<close>.\<close>

record favorite_row =
  f_id :: nat
  f_userId :: nat
  f_animeId :: string
  f_animeData :: fav_item

record watchlist_row =
  wl_id :: nat
  wl_userId :: nat
  wl_animeId :: string
  wl_status :: string
  wl_animeData :: watch_item

record history_row =
  wh_id :: nat
  wh_userId :: nat
  wh_animeId :: string
  wh_episodeId :: string
  wh_episodeNumber :: "int option"
  wh_progress :: int
  wh_duration :: int
  wh_completed :: bool
  wh_watchedAt :: int
  wh_createdAt :: int

text \<open>
  The store: every table with the last value its \<^verbatim>\<open>serial\<close> sequence handed out.
  A statement of the store is taken to run to its end (no lost connection). Of the
  constraints of the schema, the model carries the ones a client payload can break:
  the \<^verbatim>\<open>NOT NULL\<close> columns, the 32-bit \<^verbatim>\<open>integer\<close> columns and the foreign key of the rows
  \<^verbatim>\<open>syncUserData\<close> inserts. The
  unique columns are filled by the service with values it has looked up first (email,
  username, date key) or drawn at random (the 32-byte tokens); a theorem that rests on
  the uniqueness of token strings states it as a hypothesis.
\<close>

record db =
  users :: "user list"
  users_seq :: nat
  emailVerificationTokens :: "token_row list"
  emailVerificationTokens_seq :: nat
  passwordResetTokens :: "token_row list"
  passwordResetTokens_seq :: nat
  favorites :: "favorite_row list"
  favorites_seq :: nat
  watchlist :: "watchlist_row list"
  watchlist_seq :: nat
  watchHistory :: "history_row list"
  watchHistory_seq :: nat
  dailySignups :: "signup_row list"
  dailySignups_seq :: nat

section \<open>Errors, configuration and libraries\<close>

text \<open>
  \<open>Error m\<close> is \<^verbatim>\<open>throw new Error(m)\<close>; \<open>TypeError\<close> is the exception JavaScript raises
  when a destructuring pattern is applied to \<^verbatim>\<open>undefined\<close>; \<open>StoreError\<close> is the
  exception of an insert the store refuses: a missing value for a \<^verbatim>\<open>NOT NULL\<close> column,
  a user id with no row in \<^verbatim>\<open>users\<close>, or a number outside the range of an
  \<^verbatim>\<open>integer\<close> column.
\<close>

datatype error = Error string | TypeError | StoreError

datatype jwt_error = TokenExpiredError | JsonWebTokenError | NotBeforeError

record jwt_payload =
  jp_userId :: nat
  jp_iat :: int
  jp_exp :: "int option"

text \<open>
  The process environment and the two libraries the service calls, \<^verbatim>\<open>bcryptjs\<close> and
  \<^verbatim>\<open>jsonwebtoken\<close>, are parameters of the model. \<open>DAILY_SIGNUP_LIMIT\<close> is the
  integer \<^verbatim>\<open>parseInt\<close> reads from the variable, \<open>None\<close> when the variable is unset or
  empty. \<open>bcrypt_hash E password rounds salt\<close> is \<^verbatim>\<open>bcrypt.hash(password, rounds)\<close> with
  the salt the library drew; \<open>jwt_sign E userId secret expiresIn clock\<close> is
  \<^verbatim>\<open>jwt.sign({ userId }, secret, { expiresIn })\<close> at the time \<open>clock\<close>, and
  \<open>jwt_verify E token secret clock\<close> is \<^verbatim>\<open>jwt.verify(token, secret)\<close>.
\<close>

record env =
  JWT_SECRET :: string
  JWT_EXPIRES_IN :: "string option"
  DAILY_SIGNUP_LIMIT :: "int option"
  bcrypt_hash :: "string \<Rightarrow> nat \<Rightarrow> nat \<Rightarrow> string"
  bcrypt_compare :: "string \<Rightarrow> string \<Rightarrow> bool"
  jwt_sign :: "nat \<Rightarrow> string \<Rightarrow> string \<Rightarrow> int \<Rightarrow> string"
  jwt_verify :: "string \<Rightarrow> string \<Rightarrow> int \<Rightarrow> jwt_error + jwt_payload"

text \<open>The object \<^verbatim>\<open>{ success, message }\<close> several operations return.\<close>

record ok =
  ok_success :: bool
  ok_message :: string

section \<open>Ephemeral tokens: resetPassword and verifyEmail\<close>

text \<open>
  \<^verbatim>\<open>select().from(T).where(and(eq(T.token, token), eq(T.used, false),
  gt(T.expiresAt, new Date()))).limit(1)\<close>: the first row that matches.
\<close>

definition select_valid_token :: "token_row list \<Rightarrow> string \<Rightarrow> int \<Rightarrow> token_row option" where
  "select_valid_token tbl tok now =
     find (\<lambda>r. t_token r = tok \<and> t_used r = False \<and> t_expiresAt r > now) tbl"

text \<open>
  \<^verbatim>\<open>update(users).set({ password, updatedAt }).where(eq(users.id, uid))\<close> and
  \<^verbatim>\<open>update(users).set({ isVerified: true, updatedAt }).where(eq(users.id, uid))\<close>.
\<close>

definition update_user_password :: "nat \<Rightarrow> string \<Rightarrow> int \<Rightarrow> db \<Rightarrow> db" where
  "update_user_password uid hashedPassword now d =
     d\<lparr>users := map (\<lambda>u. if u_id u = uid
                           then u\<lparr>u_password := hashedPassword, u_updatedAt := now\<rparr>
                           else u) (users d)\<rparr>"

definition update_user_verified :: "nat \<Rightarrow> int \<Rightarrow> db \<Rightarrow> db" where
  "update_user_verified uid now d =
     d\<lparr>users := map (\<lambda>u. if u_id u = uid
                           then u\<lparr>u_isVerified := True, u_updatedAt := now\<rparr>
                           else u) (users d)\<rparr>"

text \<open>
  \<^verbatim>\<open>update(T).set({ used: true }).where(eq(T.id, tokenRecord.id))\<close>: the row is chosen by
  its id alone.
\<close>

definition mark_used :: "nat \<Rightarrow> token_row list \<Rightarrow> token_row list" where
  "mark_used tid tbl = map (\<lambda>r. if t_id r = tid then r\<lparr>t_used := True\<rparr> else r) tbl"

definition mark_reset_token_used :: "nat \<Rightarrow> db \<Rightarrow> db" where
  "mark_reset_token_used tid d =
     d\<lparr>passwordResetTokens := mark_used tid (passwordResetTokens d)\<rparr>"

definition mark_verification_token_used :: "nat \<Rightarrow> db \<Rightarrow> db" where
  "mark_verification_token_used tid d =
     d\<lparr>emailVerificationTokens := mark_used tid (emailVerificationTokens d)\<rparr>"

text \<open>
  \<^verbatim>\<open>AuthService.resetPassword(token, newPassword)\<close>. \<open>now\<close> is the clock of the request
  and \<open>salt\<close> the salt bcrypt draws.
\<close>

definition resetPassword ::
  "env \<Rightarrow> int \<Rightarrow> nat \<Rightarrow> db \<Rightarrow> string \<Rightarrow> string \<Rightarrow> (error + ok) \<times> db" where
  "resetPassword E now salt d token newPassword =
     (case select_valid_token (passwordResetTokens d) token now of
        None \<Rightarrow> (Inl (Error ''Invalid or expired reset token''), d)
      | Some tokenRecord \<Rightarrow>
          (let hashedPassword = bcrypt_hash E newPassword 10 salt;
               d1 = update_user_password (t_userId tokenRecord) hashedPassword now d;
               d2 = mark_reset_token_used (t_id tokenRecord) d1
           in (Inr \<lparr>ok_success = True, ok_message = ''Password reset successful''\<rparr>, d2)))"

text \<open>\<^verbatim>\<open>AuthService.verifyEmail(token)\<close>.\<close>

definition verifyEmail :: "int \<Rightarrow> db \<Rightarrow> string \<Rightarrow> (error + ok) \<times> db" where
  "verifyEmail now d token =
     (case select_valid_token (emailVerificationTokens d) token now of
        None \<Rightarrow> (Inl (Error ''Invalid or expired verification token''), d)
      | Some tokenRecord \<Rightarrow>
          (let d1 = update_user_verified (t_userId tokenRecord) now d;
               d2 = mark_verification_token_used (t_id tokenRecord) d1
           in (Inr \<lparr>ok_success = True, ok_message = ''Email verified successfully''\<rparr>, d2)))"

subsection \<open>The same two operations, one store statement at a time\<close>

text \<open>
  Each \<^verbatim>\<open>await db\<close>... of the two functions is one round trip to the store, and another
  request can run between two of them. A request in flight is its arguments and the
  point it has reached: before the select, after the select (holding the row it read),
  after the update of \<^verbatim>\<open>users\<close>, and finished with its result.
\<close>

datatype consume_req =
    ResetPassword string string nat
  | VerifyEmail string

datatype consume_pc =
    Start
  | Selected token_row
  | UserUpdated token_row
  | Finished "error + ok"

fun consume_step :: "env \<Rightarrow> int \<Rightarrow> consume_req \<Rightarrow> consume_pc \<Rightarrow> db \<Rightarrow> consume_pc \<times> db" where
  "consume_step E now (ResetPassword token newPassword salt) Start d =
     (case select_valid_token (passwordResetTokens d) token now of
        None \<Rightarrow> (Finished (Inl (Error ''Invalid or expired reset token'')), d)
      | Some tokenRecord \<Rightarrow> (Selected tokenRecord, d))"
| "consume_step E now (ResetPassword token newPassword salt) (Selected tokenRecord) d =
     (UserUpdated tokenRecord,
      update_user_password (t_userId tokenRecord) (bcrypt_hash E newPassword 10 salt) now d)"
| "consume_step E now (ResetPassword token newPassword salt) (UserUpdated tokenRecord) d =
     (Finished (Inr \<lparr>ok_success = True, ok_message = ''Password reset successful''\<rparr>),
      mark_reset_token_used (t_id tokenRecord) d)"
| "consume_step E now (VerifyEmail token) Start d =
     (case select_valid_token (emailVerificationTokens d) token now of
        None \<Rightarrow> (Finished (Inl (Error ''Invalid or expired verification token'')), d)
      | Some tokenRecord \<Rightarrow> (Selected tokenRecord, d))"
| "consume_step E now (VerifyEmail token) (Selected tokenRecord) d =
     (UserUpdated tokenRecord, update_user_verified (t_userId tokenRecord) now d)"
| "consume_step E now (VerifyEmail token) (UserUpdated tokenRecord) d =
     (Finished (Inr \<lparr>ok_success = True, ok_message = ''Email verified successfully''\<rparr>),
      mark_verification_token_used (t_id tokenRecord) d)"
| "consume_step E now req (Finished r) d = (Finished r, d)"

text \<open>
  Two requests \<open>A\<close> and \<open>B\<close> in flight over one store. A schedule is the list of the
  store statements in the order the store serves them: who runs next (\<open>True\<close> for
  \<open>A\<close>) and the clock at that moment.
\<close>

record flight =
  req_A :: consume_req
  pc_A :: consume_pc
  req_B :: consume_req
  pc_B :: consume_pc
  store :: db

fun run_schedule :: "env \<Rightarrow> (bool \<times> int) list \<Rightarrow> flight \<Rightarrow> flight" where
  "run_schedule E [] s = s"
| "run_schedule E ((who, now) # rest) s =
     (if who
      then (case consume_step E now (req_A s) (pc_A s) (store s) of
              (pc', d') \<Rightarrow> run_schedule E rest (s\<lparr>pc_A := pc', store := d'\<rparr>))
      else (case consume_step E now (req_B s) (pc_B s) (store s) of
              (pc', d') \<Rightarrow> run_schedule E rest (s\<lparr>pc_B := pc', store := d'\<rparr>)))"

definition in_flight :: "consume_req \<Rightarrow> consume_req \<Rightarrow> db \<Rightarrow> flight" where
  "in_flight a b d = \<lparr>req_A = a, pc_A = Start, req_B = b, pc_B = Start, store = d\<rparr>"

text \<open>One request served without interruption: its three store statements in a row.\<close>

definition run_to_end :: "env \<Rightarrow> int \<Rightarrow> consume_req \<Rightarrow> db \<Rightarrow> consume_pc \<times> db" where
  "run_to_end E now req d =
     (case consume_step E now req Start d of
        (pc1, d1) \<Rightarrow>
          (case consume_step E now req pc1 d1 of
             (pc2, d2) \<Rightarrow> consume_step E now req pc2 d2))"

text \<open>
  The object a request returns when it succeeds, the number of store statements a
  request has yet to issue, and the requests whose select has found a row: those that
  hold the row, or have finished with the success object.
\<close>

fun success_of :: "consume_req \<Rightarrow> ok" where
  "success_of (ResetPassword token newPassword salt) =
     \<lparr>ok_success = True, ok_message = ''Password reset successful''\<rparr>"
| "success_of (VerifyEmail token) =
     \<lparr>ok_success = True, ok_message = ''Email verified successfully''\<rparr>"

fun statements_left :: "consume_pc \<Rightarrow> nat" where
  "statements_left Start = 3"
| "statements_left (Selected tokenRecord) = 2"
| "statements_left (UserUpdated tokenRecord) = 1"
| "statements_left (Finished r) = 0"

fun select_found :: "consume_req \<Rightarrow> consume_pc \<Rightarrow> bool" where
  "select_found req Start = False"
| "select_found req (Selected tokenRecord) = True"
| "select_found req (UserUpdated tokenRecord) = True"
| "select_found req (Finished r) = (r = Inr (success_of req))"

section \<open>Bearer tokens\<close>

text \<open>\<^verbatim>\<open>process.env.JWT_EXPIRES_IN || '7d'\<close>: an unset or empty variable gives the default.\<close>

definition expiresIn :: "env \<Rightarrow> string" where
  "expiresIn E = (case JWT_EXPIRES_IN E of
                    None \<Rightarrow> ''7d''
                  | Some s \<Rightarrow> if s = [] then ''7d'' else s)"

text \<open>\<^verbatim>\<open>generateJWT(userId)\<close> of the service.\<close>

definition generateJWT :: "env \<Rightarrow> int \<Rightarrow> nat \<Rightarrow> string" where
  "generateJWT E now userId = jwt_sign E userId (JWT_SECRET E) (expiresIn E) now"

text \<open>\<^verbatim>\<open>verifyToken(token)\<close> of src/utils/jwt.js.\<close>

definition verifyToken :: "env \<Rightarrow> int \<Rightarrow> string \<Rightarrow> error + jwt_payload" where
  "verifyToken E now token =
     (case jwt_verify E token (JWT_SECRET E) now of
        Inr decoded \<Rightarrow> Inr decoded
      | Inl e \<Rightarrow>
          if e = TokenExpiredError then Inl (Error ''Token has expired'')
          else if e = JsonWebTokenError then Inl (Error ''Invalid token'')
          else Inl (Error ''Token verification failed''))"

section \<open>User projections\<close>

text \<open>
  A user row as the JavaScript object the driver returns, one key per column in the
  order of the schema, and the rest pattern
  \<^verbatim>\<open>const { password: _, ...userWithoutPassword } = user\<close>.
\<close>

definition user_object :: "user \<Rightarrow> (string \<times> json) list" where
  "user_object u =
     [(''id'', JNum (int (u_id u))),
      (''email'', JStr (u_email u)),
      (''username'', JStr (u_username u)),
      (''password'', JStr (u_password u)),
      (''avatar'', JStr (u_avatar u)),
      (''isVerified'', JBool (u_isVerified u)),
      (''preferences'', u_preferences u),
      (''createdAt'', JNum (u_createdAt u)),
      (''updatedAt'', JNum (u_updatedAt u))]"

definition without_key :: "string \<Rightarrow> (string \<times> json) list \<Rightarrow> (string \<times> json) list" where
  "without_key k obj = filter (\<lambda>kv. fst kv \<noteq> k) obj"

definition userWithoutPassword :: "user \<Rightarrow> (string \<times> json) list" where
  "userWithoutPassword u = without_key ''password'' (user_object u)"

section \<open>The signup throttle\<close>

text \<open>\<^verbatim>\<open>parseInt(process.env.DAILY_SIGNUP_LIMIT || '300')\<close>.\<close>

definition signup_limit :: "env \<Rightarrow> int" where
  "signup_limit E = (case DAILY_SIGNUP_LIMIT E of None \<Rightarrow> 300 | Some n \<Rightarrow> n)"

record limit_check =
  lc_allowed :: bool
  lc_count :: int
  lc_limit :: int
  lc_message :: "string option"

text \<open>\<^verbatim>\<open>db.insert(dailySignups).values({ date, count })\<close>.\<close>

definition insert_dailySignup :: "string \<Rightarrow> int \<Rightarrow> db \<Rightarrow> db" where
  "insert_dailySignup day n d =
     d\<lparr>dailySignups := dailySignups d @
          [\<lparr>ds_id = dailySignups_seq d + 1, ds_date = day, ds_count = n\<rparr>],
       dailySignups_seq := dailySignups_seq d + 1\<rparr>"

text \<open>
  \<^verbatim>\<open>AuthService.checkDailySignupLimit()\<close>; \<open>today\<close> is the date key the function
  computes from the clock. The statements of the store run to their end, so the
  \<^verbatim>\<open>catch\<close> branch (allow on error) is not entered.
\<close>

definition checkDailySignupLimit :: "env \<Rightarrow> string \<Rightarrow> db \<Rightarrow> limit_check \<times> db" where
  "checkDailySignupLimit E today d =
     (let limit = signup_limit E in
      case find (\<lambda>r. ds_date r = today) (dailySignups d) of
        None \<Rightarrow>
          (\<lparr>lc_allowed = True, lc_count = 0, lc_limit = limit, lc_message = None\<rparr>,
           insert_dailySignup today 0 d)
      | Some signupRecord \<Rightarrow>
          if ds_count signupRecord \<ge> limit
          then (\<lparr>lc_allowed = False, lc_count = ds_count signupRecord, lc_limit = limit,
                 lc_message = Some ''Daily signup limit reached. Please try again tomorrow.''\<rparr>, d)
          else (\<lparr>lc_allowed = True, lc_count = ds_count signupRecord, lc_limit = limit,
                 lc_message = None\<rparr>, d))"

text \<open>\<^verbatim>\<open>AuthService.incrementSignupCount()\<close>, its \<^verbatim>\<open>catch\<close> branch likewise left out.\<close>

definition incrementSignupCount :: "string \<Rightarrow> db \<Rightarrow> db" where
  "incrementSignupCount today d =
     (case find (\<lambda>r. ds_date r = today) (dailySignups d) of
        Some record \<Rightarrow>
          d\<lparr>dailySignups :=
               map (\<lambda>r. if ds_id r = ds_id record then r\<lparr>ds_count := ds_count record + 1\<rparr> else r)
                 (dailySignups d)\<rparr>
      | None \<Rightarrow> insert_dailySignup today 1 d)"

section \<open>register, login, getUserById\<close>

record register_input =
  ri_email :: string
  ri_username :: string
  ri_password :: string
  ri_avatar :: "string option"

record register_result =
  rr_user :: "(string \<times> json) list"
  rr_token :: string
  rr_verificationToken :: string

record login_result =
  lr_user :: "(string \<times> json) list"
  lr_token :: string

text \<open>\<^verbatim>\<open>a || b\<close> on an optional string: an absent or empty \<open>a\<close> is falsy.\<close>

definition or_default :: "string option \<Rightarrow> string \<Rightarrow> string" where
  "or_default a b = (case a of None \<Rightarrow> b | Some s \<Rightarrow> if s = [] then b else s)"

text \<open>
  \<^verbatim>\<open>db.insert(users).values({...}).returning()\<close> and
  \<^verbatim>\<open>db.insert(emailVerificationTokens).values({...})\<close>: the sequence gives the id.
\<close>

definition insert_user :: "user \<Rightarrow> db \<Rightarrow> user \<times> db" where
  "insert_user u d =
     (let newUser = u\<lparr>u_id := users_seq d + 1\<rparr>
      in (newUser, d\<lparr>users := users d @ [newUser], users_seq := users_seq d + 1\<rparr>))"

definition insert_verification_token :: "nat \<Rightarrow> string \<Rightarrow> int \<Rightarrow> db \<Rightarrow> db" where
  "insert_verification_token userId tok expiresAt d =
     d\<lparr>emailVerificationTokens := emailVerificationTokens d @
          [\<lparr>t_id = emailVerificationTokens_seq d + 1, t_userId = userId, t_token = tok,
            t_expiresAt = expiresAt, t_used = False\<rparr>],
       emailVerificationTokens_seq := emailVerificationTokens_seq d + 1\<rparr>"

text \<open>
  \<^verbatim>\<open>AuthService.register(userData)\<close>. The function reads the clock three times: for
  the date key of the limit check (\<open>today_check\<close>), for the timestamps of the new rows
  (\<open>now\<close>) and for the date key of the increment (\<open>today_incr\<close>). \<open>salt\<close> is the salt
  bcrypt draws and \<open>verificationToken\<close> the 32 random bytes, in hex, of
  \<^verbatim>\<open>generateSecureToken()\<close>.
\<close>

definition register ::
  "env \<Rightarrow> string \<Rightarrow> int \<Rightarrow> string \<Rightarrow> nat \<Rightarrow> string \<Rightarrow> db \<Rightarrow> register_input
     \<Rightarrow> (error + register_result) \<times> db" where
  "register E today_check now today_incr salt verificationToken d userData =
     (case checkDailySignupLimit E today_check d of
        (limitCheck, d0) \<Rightarrow>
          if \<not> lc_allowed limitCheck
          then (Inl (Error (case lc_message limitCheck of Some m \<Rightarrow> m | None \<Rightarrow> [])), d0)
          else if find (\<lambda>u. u_email u = ri_email userData) (users d0) \<noteq> None
          then (Inl (Error ''User already exists with this email''), d0)
          else if find (\<lambda>u. u_username u = ri_username userData) (users d0) \<noteq> None
          then (Inl (Error ''Username already taken''), d0)
          else
            (let hashedPassword = bcrypt_hash E (ri_password userData) 10 salt
             in case insert_user
                  \<lparr>u_id = 0, u_email = ri_email userData, u_username = ri_username userData,
                    u_password = hashedPassword,
                    u_avatar = or_default (ri_avatar userData) ''avatar_1'',
                    u_isVerified = False, u_preferences = JObj [],
                    u_createdAt = now, u_updatedAt = now\<rparr> d0 of
                  (newUser, d1) \<Rightarrow>
                    (let expiresAt = now + 24 * 60 * 60 * 1000;
                         d2 = insert_verification_token (u_id newUser) verificationToken expiresAt d1;
                         d3 = incrementSignupCount today_incr d2;
                         token = generateJWT E now (u_id newUser)
                     in (Inr \<lparr>rr_user = userWithoutPassword newUser, rr_token = token,
                               rr_verificationToken = verificationToken\<rparr>, d3))))"

text \<open>\<^verbatim>\<open>AuthService.login(email, password)\<close>.\<close>

definition login :: "env \<Rightarrow> int \<Rightarrow> db \<Rightarrow> string \<Rightarrow> string \<Rightarrow> error + login_result" where
  "login E now d email password =
     (case find (\<lambda>u. u_email u = email) (users d) of
        None \<Rightarrow> Inl (Error ''Invalid credentials'')
      | Some user \<Rightarrow>
          if \<not> bcrypt_compare E password (u_password user)
          then Inl (Error ''Invalid credentials'')
          else Inr \<lparr>lr_user = userWithoutPassword user,
                    lr_token = generateJWT E now (u_id user)\<rparr>)"

text \<open>\<^verbatim>\<open>AuthService.getUserById(userId)\<close>.\<close>

definition getUserById :: "db \<Rightarrow> nat \<Rightarrow> error + (string \<times> json) list" where
  "getUserById d userId =
     (case find (\<lambda>u. u_id u = userId) (users d) of
        None \<Rightarrow> Inl (Error ''User not found'')
      | Some user \<Rightarrow> Inr (userWithoutPassword user))"

section \<open>updateProfile\<close>

text \<open>
  The \<^verbatim>\<open>updates\<close> object of \<^verbatim>\<open>updateProfile\<close>: one optional key per column of \<^verbatim>\<open>users\<close>
  (Drizzle's \<^verbatim>\<open>set\<close> reads no other key), \<open>None\<close> for a key the object does not have.
\<close>

record profile_patch =
  p_id :: "nat option"
  p_email :: "string option"
  p_username :: "string option"
  p_password :: "string option"
  p_avatar :: "string option"
  p_isVerified :: "bool option"
  p_preferences :: "json option"
  p_createdAt :: "int option"
  p_updatedAt :: "int option"

definition or_old :: "'a option \<Rightarrow> 'a \<Rightarrow> 'a" where
  "or_old v old = (case v of None \<Rightarrow> old | Some x \<Rightarrow> x)"

text \<open>\<^verbatim>\<open>set(values)\<close> on one row: every key the object has replaces the column.\<close>

definition set_columns :: "profile_patch \<Rightarrow> user \<Rightarrow> user" where
  "set_columns p u =
     \<lparr>u_id = or_old (p_id p) (u_id u),
      u_email = or_old (p_email p) (u_email u),
      u_username = or_old (p_username p) (u_username u),
      u_password = or_old (p_password p) (u_password u),
      u_avatar = or_old (p_avatar p) (u_avatar u),
      u_isVerified = or_old (p_isVerified p) (u_isVerified u),
      u_preferences = or_old (p_preferences p) (u_preferences u),
      u_createdAt = or_old (p_createdAt p) (u_createdAt u),
      u_updatedAt = or_old (p_updatedAt p) (u_updatedAt u)\<rparr>"

text \<open>
  \<^verbatim>\<open>AuthService.updateProfile(userId, updates)\<close>. The function deletes two keys of the
  object it is given, so the object as the caller holds it after the call is the third
  component of the result. \<^verbatim>\<open>returning()\<close> gives the updated rows; destructuring the
  first of none raises a \<^verbatim>\<open>TypeError\<close>.
\<close>

definition updateProfile ::
  "int \<Rightarrow> db \<Rightarrow> nat \<Rightarrow> profile_patch
     \<Rightarrow> (error + (string \<times> json) list) \<times> db \<times> profile_patch" where
  "updateProfile now d userId updates0 =
     (let updates = updates0\<lparr>p_email := None, p_password := None\<rparr>
      in if (case p_username updates of
               None \<Rightarrow> False
             | Some name \<Rightarrow>
                 name \<noteq> [] \<and>
                 (case find (\<lambda>u. u_username u = name) (users d) of
                    None \<Rightarrow> False
                  | Some existingUser \<Rightarrow> u_id existingUser \<noteq> userId))
         then (Inl (Error ''Username already taken''), d, updates)
         else
           (let values = updates\<lparr>p_updatedAt := Some now\<rparr>;
                returning = map (set_columns values) (filter (\<lambda>u. u_id u = userId) (users d));
                d1 = d\<lparr>users := map (\<lambda>u. if u_id u = userId then set_columns values u else u)
                                   (users d)\<rparr>
            in case returning of
                 [] \<Rightarrow> (Inl TypeError, d1, updates)
               | updatedUser # _ \<Rightarrow> (Inr (userWithoutPassword updatedUser), d1, updates)))"


section \<open>Counting the signups of a day\<close>

text \<open>
  The count of a day as the two throttle functions read it: the count of the row the
  select for the date key returns, and zero while the day has no row.
\<close>

definition signup_count :: "db \<Rightarrow> string \<Rightarrow> int" where
  "signup_count d day =
     (case find (\<lambda>r. ds_date r = day) (dailySignups d) of
        None \<Rightarrow> 0
      | Some r \<Rightarrow> ds_count r)"

text \<open>
  A run of registrations that all succeed and all fall on the date key \<open>day\<close>, each
  with its own clock, salt, verification token and data; \<open>None\<close> when one of them
  fails.
\<close>

record signup_request =
  sr_now :: int
  sr_salt :: nat
  sr_token :: string
  sr_data :: register_input

fun register_all :: "env \<Rightarrow> string \<Rightarrow> db \<Rightarrow> signup_request list \<Rightarrow> db option" where
  "register_all E day d [] = Some d"
| "register_all E day d (q # qs) =
     (case register E day (sr_now q) day (sr_salt q) (sr_token q) d (sr_data q) of
        (Inr res, d') \<Rightarrow> register_all E day d' qs
      | (Inl e, d') \<Rightarrow> None)"


section \<open>Sync and fetch of the three collections\<close>




text \<open>\<^verbatim>\<open>a || b\<close> on two optional strings: the value is undefined when both are missing.\<close>

definition or_else :: "string option \<Rightarrow> string option \<Rightarrow> string option" where
  "or_else a b = (case a of None \<Rightarrow> b | Some s \<Rightarrow> if s = [] then b else Some s)"

text \<open>The range of a column of type \<^verbatim>\<open>integer\<close>: 32 bits, signed.\<close>

definition int32 :: "int \<Rightarrow> bool" where
  "int32 n = (- 2147483648 \<le> n \<and> n \<le> 2147483647)"

text \<open>
  The values object the \<^verbatim>\<open>map\<close> callback builds for one entry, as the row the store
  makes of it under the id \<open>rid\<close>. The columns \<^verbatim>\<open>anime_id\<close> and \<^verbatim>\<open>episode_id\<close> are
  \<^verbatim>\<open>notNull()\<close> in the schema, and \<^verbatim>\<open>episode_number\<close>, \<^verbatim>\<open>progress\<close> and \<^verbatim>\<open>duration\<close> are
  \<^verbatim>\<open>integer\<close>: an entry that gives no value for one of the former, or a number out of
  range for one of the latter, has no row.
\<close>

definition favorite_row_of :: "nat \<Rightarrow> nat \<Rightarrow> fav_item \<Rightarrow> favorite_row option" where
  "favorite_row_of userId rid fav =
     (case or_else (fi_animeId fav) (fi_id fav) of
        None \<Rightarrow> None
      | Some a \<Rightarrow> Some \<lparr>f_id = rid, f_userId = userId, f_animeId = a, f_animeData = fav\<rparr>)"

definition watchlist_row_of :: "nat \<Rightarrow> nat \<Rightarrow> watch_item \<Rightarrow> watchlist_row option" where
  "watchlist_row_of userId rid item =
     (case or_else (wi_animeId item) (wi_id item) of
        None \<Rightarrow> None
      | Some a \<Rightarrow> Some \<lparr>wl_id = rid, wl_userId = userId, wl_animeId = a,
                         wl_status = or_default (wi_status item) ''watching'',
                         wl_animeData = item\<rparr>)"

definition history_row_of :: "int \<Rightarrow> nat \<Rightarrow> nat \<Rightarrow> history_item \<Rightarrow> history_row option" where
  "history_row_of now userId rid item =
     (case hi_animeId item of
        None \<Rightarrow> None
      | Some a \<Rightarrow>
          (case hi_episodeId item of
             None \<Rightarrow> None
           | Some e \<Rightarrow>
               (let progress = (case hi_progress item of None \<Rightarrow> 0 | Some p \<Rightarrow> p);
                    duration = (case hi_duration item of None \<Rightarrow> 0 | Some q \<Rightarrow> q)
                in if int32 progress \<and> int32 duration
                      \<and> (case hi_episodeNumber item of None \<Rightarrow> True | Some n \<Rightarrow> int32 n)
                   then Some \<lparr>wh_id = rid, wh_userId = userId, wh_animeId = a, wh_episodeId = e,
                              wh_episodeNumber = hi_episodeNumber item,
                              wh_progress = progress,
                              wh_duration = duration,
                              wh_completed = (case hi_completed item of None \<Rightarrow> False | Some c \<Rightarrow> c),
                              wh_watchedAt = (case hi_watchedAt item of
                                                None \<Rightarrow> now
                                              | Some t \<Rightarrow> if t = 0 then now else t),
                              wh_createdAt = now\<rparr>
                   else None)))"

text \<open>
  One \<^verbatim>\<open>insert(T).values([...])\<close> of several rows: the rows take the next ids of the
  sequence, and the statement inserts all of them or, when an entry has no row, raises
  and inserts none. The store can refuse a row for further reasons (a text holding a
  NUL character, a date out of range); the statements below about a call that returns
  are statements about every call that returns. A statement that raises is modelled as
  leaving the sequence where it was; nothing below reads the sequence after a failure.
\<close>

definition numbered_rows :: "(nat \<Rightarrow> 'a \<Rightarrow> 'r option) \<Rightarrow> nat \<Rightarrow> 'a list \<Rightarrow> 'r list option" where
  "numbered_rows row_of seq items =
     those (map2 row_of [Suc seq ..< Suc seq + length items] items)"

text \<open>
  The column \<^verbatim>\<open>user_id\<close> of the three tables \<^verbatim>\<open>references(() => users.id)\<close>: an insert
  for a user id that has no row in \<^verbatim>\<open>users\<close> raises as well.
\<close>

definition references_user :: "db \<Rightarrow> nat \<Rightarrow> bool" where
  "references_user d userId = (\<exists>x \<in> set (users d). u_id x = userId)"

text \<open>
  The three blocks of \<^verbatim>\<open>syncUserData\<close>: delete the user's rows, then insert the
  submitted ones when there are any. The first component is the exception the insert
  raised, if any; the second is the store the block leaves behind.
\<close>

definition sync_favorites :: "nat \<Rightarrow> fav_item list \<Rightarrow> db \<Rightarrow> error option \<times> db" where
  "sync_favorites userId items d =
     (let d1 = d\<lparr>favorites := filter (\<lambda>f. f_userId f \<noteq> userId) (favorites d)\<rparr>
      in if length items > 0
         then if \<not> references_user d1 userId
              then (Some StoreError, d1)
              else (case numbered_rows (favorite_row_of userId) (favorites_seq d1) items of
                      None \<Rightarrow> (Some StoreError, d1)
                    | Some rows \<Rightarrow>
                        (None, d1\<lparr>favorites := favorites d1 @ rows,
                                  favorites_seq := favorites_seq d1 + length items\<rparr>))
         else (None, d1))"

definition sync_watchlist :: "nat \<Rightarrow> watch_item list \<Rightarrow> db \<Rightarrow> error option \<times> db" where
  "sync_watchlist userId items d =
     (let d1 = d\<lparr>watchlist := filter (\<lambda>w. wl_userId w \<noteq> userId) (watchlist d)\<rparr>
      in if length items > 0
         then if \<not> references_user d1 userId
              then (Some StoreError, d1)
              else (case numbered_rows (watchlist_row_of userId) (watchlist_seq d1) items of
                      None \<Rightarrow> (Some StoreError, d1)
                    | Some rows \<Rightarrow>
                        (None, d1\<lparr>watchlist := watchlist d1 @ rows,
                                  watchlist_seq := watchlist_seq d1 + length items\<rparr>))
         else (None, d1))"

definition sync_watchHistory :: "int \<Rightarrow> nat \<Rightarrow> history_item list \<Rightarrow> db \<Rightarrow> error option \<times> db" where
  "sync_watchHistory now userId items d =
     (let d1 = d\<lparr>watchHistory := filter (\<lambda>h. wh_userId h \<noteq> userId) (watchHistory d)\<rparr>
      in if length items > 0
         then if \<not> references_user d1 userId
              then (Some StoreError, d1)
              else (case numbered_rows (history_row_of now userId) (watchHistory_seq d1) items of
                      None \<Rightarrow> (Some StoreError, d1)
                    | Some rows \<Rightarrow>
                        (None, d1\<lparr>watchHistory := watchHistory d1 @ rows,
                                  watchHistory_seq := watchHistory_seq d1 + length items\<rparr>))
         else (None, d1))"





section \<open>A sample configuration and store\<close>

text \<open>
  Stand-ins for the two libraries, used where a theorem is run on a concrete input:
  a hash that only tags the password, and a bearer token that spells the user id in
  unary after the secret.
\<close>

definition sample_env :: env where
  "sample_env =
     \<lparr>JWT_SECRET = ''s3cret'', JWT_EXPIRES_IN = None, DAILY_SIGNUP_LIMIT = None,
      bcrypt_hash = (\<lambda>password rounds salt. ''#'' @ password),
      bcrypt_compare = (\<lambda>password hashed. hashed = ''#'' @ password),
      jwt_sign = (\<lambda>userId secret expiresIn clock. secret @ replicate userId (CHR ''u'')),
      jwt_verify = (\<lambda>token secret clock.
         if take (length secret) token = secret
         then Inr \<lparr>jp_userId = length token - length secret, jp_iat = clock, jp_exp = None\<rparr>
         else Inl JsonWebTokenError)\<rparr>"

definition empty_db :: db where
  "empty_db =
     \<lparr>users = [], users_seq = 0,
      emailVerificationTokens = [], emailVerificationTokens_seq = 0,
      passwordResetTokens = [], passwordResetTokens_seq = 0,
      favorites = [], favorites_seq = 0,
      watchlist = [], watchlist_seq = 0,
      watchHistory = [], watchHistory_seq = 0,
      dailySignups = [], dailySignups_seq = 0\<rparr>"

definition alice :: user where
  "alice = \<lparr>u_id = 1, u_email = ''alice@example.com'', u_username = ''alice'',
            u_password = ''#old-a'', u_avatar = ''avatar_1'', u_isVerified = False,
            u_preferences = JObj [], u_createdAt = 0, u_updatedAt = 0\<rparr>"

definition bob :: user where
  "bob = \<lparr>u_id = 2, u_email = ''bob@example.com'', u_username = ''bob'',
          u_password = ''#old-b'', u_avatar = ''avatar_2'', u_isVerified = False,
          u_preferences = JObj [], u_createdAt = 0, u_updatedAt = 0\<rparr>"

definition token_a :: token_row where
  "token_a = \<lparr>t_id = 1, t_userId = 1, t_token = ''aaaa'', t_expiresAt = 1000,
              t_used = False\<rparr>"

definition token_b :: token_row where
  "token_b = \<lparr>t_id = 2, t_userId = 2, t_token = ''bbbb'', t_expiresAt = 1000,
              t_used = False\<rparr>"

definition sample_db :: db where
  "sample_db = empty_db\<lparr>users := [alice, bob], users_seq := 2,
                 emailVerificationTokens := [token_a, token_b], emailVerificationTokens_seq := 2,
                 passwordResetTokens := [token_a, token_b], passwordResetTokens_seq := 2\<rparr>"


definition carol :: register_input where
  "carol = \<lparr>ri_email = ''carol@example.com'', ri_username = ''carol'',
            ri_password = ''pw-c'', ri_avatar = None\<rparr>"

definition no_updates :: profile_patch where
  "no_updates = \<lparr>p_id = None, p_email = None, p_username = None, p_password = None,
                 p_avatar = None, p_isVerified = None, p_preferences = None,
                 p_createdAt = None, p_updatedAt = None\<rparr>"


definition carol_row :: user where
  "carol_row = \<lparr>u_id = 3, u_email = ''carol@example.com'', u_username = ''carol'',
                u_password = ''#pw-c'', u_avatar = ''avatar_1'', u_isVerified = False,
                u_preferences = JObj [], u_createdAt = 0, u_updatedAt = 0\<rparr>"


definition busy_db :: "int \<Rightarrow> db" where
  "busy_db n = sample_db\<lparr>dailySignups := [\<lparr>ds_id = 1, ds_date = ''2024-01-01'', ds_count = n\<rparr>],
                         dailySignups_seq := 1\<rparr>"

definition carol_request :: signup_request where
  "carol_request = \<lparr>sr_now = 0, sr_salt = 0, sr_token = ''cccc'', sr_data = carol\<rparr>"








section \<open>Facts about token lookup\<close>

lemma select_valid_token_Some:
  "select_valid_token tbl tok now = Some r \<Longrightarrow>
     r \<in> set tbl \<and> t_token r = tok \<and> \<not> t_used r \<and> now < t_expiresAt r"
  by (auto simp: select_valid_token_def find_Some_iff)

lemma select_valid_token_None:
  "select_valid_token tbl tok now = None \<longleftrightarrow>
     (\<forall>r \<in> set tbl. t_token r = tok \<longrightarrow> t_used r \<or> t_expiresAt r \<le> now)"
  by (auto simp: select_valid_token_def find_None_iff)

text \<open>The schema declares the token column \<^verbatim>\<open>unique()\<close>: no two rows carry one string.\<close>

lemma unique_token_row:
  assumes "distinct (map t_token tbl)" "r \<in> set tbl" "r' \<in> set tbl" "t_token r = t_token r'"
  shows "r = r'"
  using assms by (meson distinct_map inj_onD)

lemma select_valid_token_unique:
  assumes "distinct (map t_token tbl)" "r \<in> set tbl" "\<not> t_used r" "now < t_expiresAt r"
  shows "select_valid_token tbl (t_token r) now = Some r"
proof (cases "select_valid_token tbl (t_token r) now")
  case None
  with assms show ?thesis by (auto simp: select_valid_token_None)
next
  case (Some r')
  then have "r' \<in> set tbl" "t_token r' = t_token r"
    by (auto dest: select_valid_token_Some)
  with assms have "r' = r" by (metis unique_token_row)
  with Some show ?thesis by simp
qed

lemma select_after_mark_used:
  assumes "distinct (map t_token tbl)" "r \<in> set tbl"
  shows "select_valid_token (mark_used (t_id r) tbl) (t_token r) now' = None"
proof -
  have "t_used x" if "x \<in> set (mark_used (t_id r) tbl)" "t_token x = t_token r" for x
  proof -
    from that obtain y where y: "y \<in> set tbl"
      "x = (if t_id y = t_id r then y\<lparr>t_used := True\<rparr> else y)"
      by (auto simp: mark_used_def)
    then have "t_token y = t_token r" using that by (auto split: if_splits)
    with assms y have "y = r" by (metis unique_token_row)
    with y show ?thesis by simp
  qed
  then show ?thesis by (auto simp: select_valid_token_None)
qed

lemma mark_used_member:
  "r \<in> set tbl \<Longrightarrow> r\<lparr>t_used := True\<rparr> \<in> set (mark_used (t_id r) tbl)"
  unfolding mark_used_def set_map by (rule image_eqI[where x = r]) simp_all

lemma users_mark_reset [simp]: "users (mark_reset_token_used tid d) = users d"
  by (simp add: mark_reset_token_used_def)

lemma users_mark_verification [simp]: "users (mark_verification_token_used tid d) = users d"
  by (simp add: mark_verification_token_used_def)

lemma reset_tokens_update_user_password [simp]:
  "passwordResetTokens (update_user_password uid h now d) = passwordResetTokens d"
  by (simp add: update_user_password_def)

lemma verification_tokens_update_user_verified [simp]:
  "emailVerificationTokens (update_user_verified uid now d) = emailVerificationTokens d"
  by (simp add: update_user_verified_def)

lemma reset_tokens_mark_reset [simp]:
  "passwordResetTokens (mark_reset_token_used tid d) = mark_used tid (passwordResetTokens d)"
  by (simp add: mark_reset_token_used_def)

lemma verification_tokens_mark_verification [simp]:
  "emailVerificationTokens (mark_verification_token_used tid d) =
     mark_used tid (emailVerificationTokens d)"
  by (simp add: mark_verification_token_used_def)

lemma password_after_update:
  assumes "u \<in> set (users (update_user_password uid h now d))" "u_id u = uid"
  shows "u_password u = h"
proof -
  from assms(1) obtain x where x: "x \<in> set (users d)"
    "u = (if u_id x = uid then x\<lparr>u_password := h, u_updatedAt := now\<rparr> else x)"
    unfolding update_user_password_def by fastforce
  show ?thesis
  proof (cases "u_id x = uid")
    case True
    with x show ?thesis by simp
  next
    case False
    with x assms(2) show ?thesis by simp
  qed
qed

lemma verified_after_update:
  assumes "u \<in> set (users (update_user_verified uid now d))" "u_id u = uid"
  shows "u_isVerified u"
proof -
  from assms(1) obtain x where x: "x \<in> set (users d)"
    "u = (if u_id x = uid then x\<lparr>u_isVerified := True, u_updatedAt := now\<rparr> else x)"
    unfolding update_user_verified_def by fastforce
  show ?thesis
  proof (cases "u_id x = uid")
    case True
    with x show ?thesis by simp
  next
    case False
    with x assms(2) show ?thesis by simp
  qed
qed


text \<open>
  Served without interruption, the three store statements of a request are the
  function of the service.
\<close>

lemma resetPassword_as_steps:
  "run_to_end E now (ResetPassword token pw salt) d =
     (Finished (fst (resetPassword E now salt d token pw)),
      snd (resetPassword E now salt d token pw))"
proof (cases "select_valid_token (passwordResetTokens d) token now")
  case None
  then show ?thesis by (simp add: run_to_end_def resetPassword_def)
next
  case (Some r)
  then show ?thesis by (simp add: run_to_end_def resetPassword_def Let_def)
qed

lemma verifyEmail_as_steps:
  "run_to_end E now (VerifyEmail token) d =
     (Finished (fst (verifyEmail now d token)), snd (verifyEmail now d token))"
proof (cases "select_valid_token (emailVerificationTokens d) token now")
  case None
  then show ?thesis by (simp add: run_to_end_def verifyEmail_def)
next
  case (Some r)
  then show ?thesis by (simp add: run_to_end_def verifyEmail_def Let_def)
qed

lemma resetPassword_valid:
  assumes "select_valid_token (passwordResetTokens d) token now = Some r"
  shows "resetPassword E now salt d token pw =
           (Inr \<lparr>ok_success = True, ok_message = ''Password reset successful''\<rparr>,
            mark_reset_token_used (t_id r)
              (update_user_password (t_userId r) (bcrypt_hash E pw 10 salt) now d))"
  using assms by (simp add: resetPassword_def Let_def)

lemma resetPassword_invalid:
  assumes "select_valid_token (passwordResetTokens d) token now = None"
  shows "resetPassword E now salt d token pw =
           (Inl (Error ''Invalid or expired reset token''), d)"
  using assms by (simp add: resetPassword_def)

lemma verifyEmail_valid:
  assumes "select_valid_token (emailVerificationTokens d) token now = Some r"
  shows "verifyEmail now d token =
           (Inr \<lparr>ok_success = True, ok_message = ''Email verified successfully''\<rparr>,
            mark_verification_token_used (t_id r) (update_user_verified (t_userId r) now d))"
  using assms by (simp add: verifyEmail_def Let_def)

lemma verifyEmail_invalid:
  assumes "select_valid_token (emailVerificationTokens d) token now = None"
  shows "verifyEmail now d token =
           (Inl (Error ''Invalid or expired verification token''), d)"
  using assms by (simp add: verifyEmail_def)

section \<open>C1: resetPassword\<close>

text \<open>
  C1 as the code has it. For a stored reset token \<open>r\<close> that is unused and unexpired
  (token strings being unique, as the schema declares), \<open>resetPassword\<close> reads the row,
  then writes the new password hash to the owning user, and only then marks the row
  used, and returns the success object: every user row with the owner's id carries the
  new hash and \<open>r\<close> is in the table as used. The three store statements run in this
  order: select, update of \<open>users\<close>, update of the token table. For a token string
  whose every row is used or expired (or that has no row), the call fails with
  \<open>Invalid or expired reset token\<close> and the store, so every password hash, is unchanged.
\<close>

theorem resetPassword_sets_hash_then_marks_used:
  "(distinct (map t_token (passwordResetTokens d)) \<and> r \<in> set (passwordResetTokens d)
      \<and> \<not> t_used r \<and> now < t_expiresAt r \<longrightarrow>
      (let req = ResetPassword (t_token r) pw salt;
           h = bcrypt_hash E pw 10 salt;
           d1 = update_user_password (t_userId r) h now d;
           d2 = mark_reset_token_used (t_id r) d1
       in resetPassword E now salt d (t_token r) pw =
            (Inr \<lparr>ok_success = True, ok_message = ''Password reset successful''\<rparr>, d2)
          \<and> consume_step E now req Start d = (Selected r, d)
          \<and> consume_step E now req (Selected r) d = (UserUpdated r, d1)
          \<and> consume_step E now req (UserUpdated r) d1 =
               (Finished (Inr \<lparr>ok_success = True, ok_message = ''Password reset successful''\<rparr>), d2)
          \<and> passwordResetTokens d1 = passwordResetTokens d
          \<and> (\<forall>u \<in> set (users d2). u_id u = t_userId r \<longrightarrow> u_password u = h)
          \<and> r\<lparr>t_used := True\<rparr> \<in> set (passwordResetTokens d2)))
   \<and> ((\<forall>x \<in> set (passwordResetTokens d). t_token x = token \<longrightarrow> t_used x \<or> t_expiresAt x \<le> now) \<longrightarrow>
        resetPassword E now salt d token pw = (Inl (Error ''Invalid or expired reset token''), d))"
proof (intro conjI impI)
  assume a: "distinct (map t_token (passwordResetTokens d)) \<and> r \<in> set (passwordResetTokens d)
      \<and> \<not> t_used r \<and> now < t_expiresAt r"
  then have sel: "select_valid_token (passwordResetTokens d) (t_token r) now = Some r"
    by (simp add: select_valid_token_unique)
  define h where "h = bcrypt_hash E pw 10 salt"
  define d1 where "d1 = update_user_password (t_userId r) h now d"
  define d2 where "d2 = mark_reset_token_used (t_id r) d1"
  have 1: "resetPassword E now salt d (t_token r) pw =
            (Inr \<lparr>ok_success = True, ok_message = ''Password reset successful''\<rparr>, d2)"
    using resetPassword_valid[OF sel] by (simp add: d2_def d1_def h_def)
  have 2: "consume_step E now (ResetPassword (t_token r) pw salt) Start d = (Selected r, d)"
    using sel by simp
  have 3: "consume_step E now (ResetPassword (t_token r) pw salt) (Selected r) d = (UserUpdated r, d1)"
    by (simp add: d1_def h_def)
  have 4: "consume_step E now (ResetPassword (t_token r) pw salt) (UserUpdated r) d1 =
             (Finished (Inr \<lparr>ok_success = True, ok_message = ''Password reset successful''\<rparr>), d2)"
    by (simp add: d2_def)
  have 5: "passwordResetTokens d1 = passwordResetTokens d"
    by (simp add: d1_def)
  have 6: "\<forall>u \<in> set (users d2). u_id u = t_userId r \<longrightarrow> u_password u = h"
    using password_after_update[of _ "t_userId r" h now d] by (simp add: d2_def d1_def)
  have 7: "r\<lparr>t_used := True\<rparr> \<in> set (passwordResetTokens d2)"
    using a mark_used_member[of r "passwordResetTokens d"] by (simp add: d2_def d1_def)
  from 1 2 3 4 5 6 7
  show "let req = ResetPassword (t_token r) pw salt;
           h = bcrypt_hash E pw 10 salt;
           d1 = update_user_password (t_userId r) h now d;
           d2 = mark_reset_token_used (t_id r) d1
       in resetPassword E now salt d (t_token r) pw =
            (Inr \<lparr>ok_success = True, ok_message = ''Password reset successful''\<rparr>, d2)
          \<and> consume_step E now req Start d = (Selected r, d)
          \<and> consume_step E now req (Selected r) d = (UserUpdated r, d1)
          \<and> consume_step E now req (UserUpdated r) d1 =
               (Finished (Inr \<lparr>ok_success = True, ok_message = ''Password reset successful''\<rparr>), d2)
          \<and> passwordResetTokens d1 = passwordResetTokens d
          \<and> (\<forall>u \<in> set (users d2). u_id u = t_userId r \<longrightarrow> u_password u = h)
          \<and> r\<lparr>t_used := True\<rparr> \<in> set (passwordResetTokens d2)"
    unfolding Let_def d2_def d1_def h_def by blast
next
  assume "\<forall>x \<in> set (passwordResetTokens d). t_token x = token \<longrightarrow> t_used x \<or> t_expiresAt x \<le> now"
  then have "select_valid_token (passwordResetTokens d) token now = None"
    by (simp add: select_valid_token_None)
  then show "resetPassword E now salt d token pw = (Inl (Error ''Invalid or expired reset token''), d)"
    by (rule resetPassword_invalid)
qed


lemma sample_reset_tokens:
  "passwordResetTokens sample_db = [token_a, token_b]"
  by (simp add: sample_db_def)

lemma sample_verification_tokens:
  "emailVerificationTokens sample_db = [token_a, token_b]"
  by (simp add: sample_db_def)

lemma sample_users: "users sample_db = [alice, bob]"
  by (simp add: sample_db_def)

lemma sample_tokens_distinct: "distinct (map t_token [token_a, token_b])"
  by (simp add: token_a_def token_b_def)

lemma sample_select_a: "select_valid_token [token_a, token_b] ''aaaa'' 0 = Some token_a"
  by (simp add: select_valid_token_def token_a_def)

lemma sample_select_b: "select_valid_token [token_a, token_b] ''bbbb'' 0 = Some token_b"
  by (simp add: select_valid_token_def token_a_def token_b_def)

lemma sample_select_z: "select_valid_token [token_a, token_b] ''zzzz'' 0 = None"
  by (simp add: select_valid_token_def token_a_def token_b_def)

theorem resetPassword_sets_hash_then_marks_used_witness:
  "distinct (map t_token (passwordResetTokens sample_db))
   \<and> token_a \<in> set (passwordResetTokens sample_db)
   \<and> \<not> t_used token_a \<and> 0 < t_expiresAt token_a
   \<and> resetPassword sample_env 0 0 sample_db ''aaaa'' ''new'' =
        (Inr \<lparr>ok_success = True, ok_message = ''Password reset successful''\<rparr>,
         mark_reset_token_used 1 (update_user_password 1 ''#new'' 0 sample_db))
   \<and> map u_password (users (snd (resetPassword sample_env 0 0 sample_db ''aaaa'' ''new'')))
        = [''#new'', ''#old-b'']
   \<and> map t_used (passwordResetTokens (snd (resetPassword sample_env 0 0 sample_db ''aaaa'' ''new'')))
        = [True, False]
   \<and> resetPassword sample_env 0 0 sample_db ''zzzz'' ''new'' =
        (Inl (Error ''Invalid or expired reset token''), sample_db)"
proof -
  have hyp: "distinct (map t_token (passwordResetTokens sample_db))
      \<and> token_a \<in> set (passwordResetTokens sample_db)
      \<and> \<not> t_used token_a \<and> 0 < t_expiresAt token_a"
    using sample_tokens_distinct by (simp add: sample_reset_tokens) (simp add: token_a_def)
  have hyp2: "\<forall>x \<in> set (passwordResetTokens sample_db).
      t_token x = ''zzzz'' \<longrightarrow> t_used x \<or> t_expiresAt x \<le> 0"
    by (simp add: sample_reset_tokens token_a_def token_b_def)
  note inst = resetPassword_sets_hash_then_marks_used
      [where d = sample_db and r = token_a and now = 0 and pw = "''new''" and salt = 0
         and E = sample_env and token = "''zzzz''"]
  from inst hyp have ok: "resetPassword sample_env 0 0 sample_db (t_token token_a) ''new'' =
        (Inr \<lparr>ok_success = True, ok_message = ''Password reset successful''\<rparr>,
         mark_reset_token_used (t_id token_a)
           (update_user_password (t_userId token_a) (bcrypt_hash sample_env ''new'' 10 0) 0 sample_db))"
    unfolding Let_def by blast
  from inst hyp2 have bad: "resetPassword sample_env 0 0 sample_db ''zzzz'' ''new'' =
        (Inl (Error ''Invalid or expired reset token''), sample_db)"
    by blast
  have tok: "t_token token_a = ''aaaa''" "t_id token_a = 1" "t_userId token_a = 1"
    by (simp_all add: token_a_def)
  have h: "bcrypt_hash sample_env ''new'' 10 0 = ''#new''"
    by (simp add: sample_env_def)
  have pws: "map u_password (users (mark_reset_token_used 1
               (update_user_password 1 ''#new'' 0 sample_db))) = [''#new'', ''#old-b'']"
    by (simp add: update_user_password_def sample_users alice_def bob_def)
  have useds: "map t_used (passwordResetTokens (mark_reset_token_used 1
               (update_user_password 1 ''#new'' 0 sample_db))) = [True, False]"
    by (simp add: sample_reset_tokens mark_used_def token_a_def token_b_def)
  from ok have ok': "resetPassword sample_env 0 0 sample_db ''aaaa'' ''new'' =
        (Inr \<lparr>ok_success = True, ok_message = ''Password reset successful''\<rparr>,
         mark_reset_token_used 1 (update_user_password 1 ''#new'' 0 sample_db))"
    by (simp only: tok h)
  show ?thesis
    using hyp ok' bad pws useds by simp
qed

text \<open>
  C1 as stated puts the two writes the other way round. On the sample store, after the
  select and the first write of \<open>resetPassword\<close> the owner's password hash is already
  the new one while the token row is still unused.
\<close>

theorem resetPassword_write_order_counterexample:
  "consume_step sample_env 0 (ResetPassword ''aaaa'' ''new'' 0) Start sample_db
     = (Selected token_a, sample_db)
   \<and> fst (consume_step sample_env 0 (ResetPassword ''aaaa'' ''new'' 0) (Selected token_a) sample_db)
     = UserUpdated token_a
   \<and> map u_password (users (snd
        (consume_step sample_env 0 (ResetPassword ''aaaa'' ''new'' 0) (Selected token_a) sample_db)))
     = [''#new'', ''#old-b'']
   \<and> map t_used (passwordResetTokens (snd
        (consume_step sample_env 0 (ResetPassword ''aaaa'' ''new'' 0) (Selected token_a) sample_db)))
     = [False, False]"
proof -
  have 1: "consume_step sample_env 0 (ResetPassword ''aaaa'' ''new'' 0) Start sample_db
     = (Selected token_a, sample_db)"
    by (simp add: sample_reset_tokens sample_select_a)
  have 2: "consume_step sample_env 0 (ResetPassword ''aaaa'' ''new'' 0) (Selected token_a) sample_db
     = (UserUpdated token_a, update_user_password 1 ''#new'' 0 sample_db)"
    by (simp add: token_a_def sample_env_def)
  have 3: "map u_password (users (update_user_password 1 ''#new'' 0 sample_db))
     = [''#new'', ''#old-b'']"
    by (simp add: update_user_password_def sample_users alice_def bob_def)
  have 4: "map t_used (passwordResetTokens (update_user_password 1 ''#new'' 0 sample_db))
     = [False, False]"
    by (simp add: sample_reset_tokens token_a_def token_b_def)
  show ?thesis
    unfolding 1 2 using 3 4 by simp
qed


section \<open>C5: consuming a token twice\<close>

lemma verifyEmail_second_call:
  assumes "distinct (map t_token (emailVerificationTokens d))" "r \<in> set (emailVerificationTokens d)"
  shows "verifyEmail now' (mark_verification_token_used (t_id r) (update_user_verified uid now d))
           (t_token r) =
         (Inl (Error ''Invalid or expired verification token''),
          mark_verification_token_used (t_id r) (update_user_verified uid now d))"
proof -
  have "select_valid_token
          (emailVerificationTokens
             (mark_verification_token_used (t_id r) (update_user_verified uid now d)))
          (t_token r) now' = None"
    using select_after_mark_used[OF assms] by simp
  then show ?thesis by (rule verifyEmail_invalid)
qed

lemma resetPassword_second_call:
  assumes "distinct (map t_token (passwordResetTokens d))" "r \<in> set (passwordResetTokens d)"
  shows "resetPassword E now' salt'
           (mark_reset_token_used (t_id r) (update_user_password uid h now d)) (t_token r) pw' =
         (Inl (Error ''Invalid or expired reset token''),
          mark_reset_token_used (t_id r) (update_user_password uid h now d))"
proof -
  have "select_valid_token
          (passwordResetTokens (mark_reset_token_used (t_id r) (update_user_password uid h now d)))
          (t_token r) now' = None"
    using select_after_mark_used[OF assms] by simp
  then show ?thesis by (rule resetPassword_invalid)
qed

text \<open>
  C5 as the code has it. For a stored token that is unused and unexpired (token strings
  being unique), the first call succeeds and returns the success object
  \<^verbatim>\<open>{ success: true, message }\<close>, which does not carry a user id; it sets the verified
  flag (\<open>verifyEmail\<close>) or the password hash (\<open>resetPassword\<close>) of the owning user. A
  second call with the same token string, at any later or earlier clock and with any
  new password, fails with the invalid-or-expired error of its operation and returns
  the store it was given.
\<close>

theorem consume_twice_second_fails:
  "(distinct (map t_token (emailVerificationTokens d)) \<and> r \<in> set (emailVerificationTokens d)
      \<and> \<not> t_used r \<and> now < t_expiresAt r \<longrightarrow>
      (let d1 = mark_verification_token_used (t_id r) (update_user_verified (t_userId r) now d)
       in verifyEmail now d (t_token r) =
            (Inr \<lparr>ok_success = True, ok_message = ''Email verified successfully''\<rparr>, d1)
          \<and> (\<forall>u \<in> set (users d1). u_id u = t_userId r \<longrightarrow> u_isVerified u)
          \<and> verifyEmail now' d1 (t_token r) =
               (Inl (Error ''Invalid or expired verification token''), d1)))
   \<and> (distinct (map t_token (passwordResetTokens d)) \<and> q \<in> set (passwordResetTokens d)
      \<and> \<not> t_used q \<and> now < t_expiresAt q \<longrightarrow>
      (let d1 = mark_reset_token_used (t_id q)
                  (update_user_password (t_userId q) (bcrypt_hash E pw 10 salt) now d)
       in resetPassword E now salt d (t_token q) pw =
            (Inr \<lparr>ok_success = True, ok_message = ''Password reset successful''\<rparr>, d1)
          \<and> (\<forall>u \<in> set (users d1). u_id u = t_userId q \<longrightarrow> u_password u = bcrypt_hash E pw 10 salt)
          \<and> resetPassword E now' salt' d1 (t_token q) pw' =
               (Inl (Error ''Invalid or expired reset token''), d1)))"
proof (intro conjI impI)
  assume a: "distinct (map t_token (emailVerificationTokens d)) \<and> r \<in> set (emailVerificationTokens d)
      \<and> \<not> t_used r \<and> now < t_expiresAt r"
  then have sel: "select_valid_token (emailVerificationTokens d) (t_token r) now = Some r"
    by (simp add: select_valid_token_unique)
  define d1 where "d1 = mark_verification_token_used (t_id r) (update_user_verified (t_userId r) now d)"
  have 1: "verifyEmail now d (t_token r) =
            (Inr \<lparr>ok_success = True, ok_message = ''Email verified successfully''\<rparr>, d1)"
    using verifyEmail_valid[OF sel] by (simp add: d1_def)
  have 2: "\<forall>u \<in> set (users d1). u_id u = t_userId r \<longrightarrow> u_isVerified u"
    using verified_after_update[of _ "t_userId r" now d] by (simp add: d1_def)
  have 3: "verifyEmail now' d1 (t_token r) =
             (Inl (Error ''Invalid or expired verification token''), d1)"
    unfolding d1_def using a by (intro verifyEmail_second_call) simp_all
  from 1 2 3
  show "let d1 = mark_verification_token_used (t_id r) (update_user_verified (t_userId r) now d)
       in verifyEmail now d (t_token r) =
            (Inr \<lparr>ok_success = True, ok_message = ''Email verified successfully''\<rparr>, d1)
          \<and> (\<forall>u \<in> set (users d1). u_id u = t_userId r \<longrightarrow> u_isVerified u)
          \<and> verifyEmail now' d1 (t_token r) =
               (Inl (Error ''Invalid or expired verification token''), d1)"
    unfolding Let_def d1_def by blast
next
  assume a: "distinct (map t_token (passwordResetTokens d)) \<and> q \<in> set (passwordResetTokens d)
      \<and> \<not> t_used q \<and> now < t_expiresAt q"
  then have sel: "select_valid_token (passwordResetTokens d) (t_token q) now = Some q"
    by (simp add: select_valid_token_unique)
  define h where "h = bcrypt_hash E pw 10 salt"
  define d1 where "d1 = mark_reset_token_used (t_id q) (update_user_password (t_userId q) h now d)"
  have 1: "resetPassword E now salt d (t_token q) pw =
            (Inr \<lparr>ok_success = True, ok_message = ''Password reset successful''\<rparr>, d1)"
    using resetPassword_valid[OF sel] by (simp add: d1_def h_def)
  have 2: "\<forall>u \<in> set (users d1). u_id u = t_userId q \<longrightarrow> u_password u = h"
    using password_after_update[of _ "t_userId q" h now d] by (simp add: d1_def)
  have 3: "resetPassword E now' salt' d1 (t_token q) pw' =
             (Inl (Error ''Invalid or expired reset token''), d1)"
    unfolding d1_def using a by (intro resetPassword_second_call) simp_all
  from 1 2 3
  show "let d1 = mark_reset_token_used (t_id q)
                  (update_user_password (t_userId q) (bcrypt_hash E pw 10 salt) now d)
       in resetPassword E now salt d (t_token q) pw =
            (Inr \<lparr>ok_success = True, ok_message = ''Password reset successful''\<rparr>, d1)
          \<and> (\<forall>u \<in> set (users d1). u_id u = t_userId q \<longrightarrow> u_password u = bcrypt_hash E pw 10 salt)
          \<and> resetPassword E now' salt' d1 (t_token q) pw' =
               (Inl (Error ''Invalid or expired reset token''), d1)"
    unfolding Let_def d1_def h_def by blast
qed

theorem consume_twice_second_fails_witness:
  "distinct (map t_token (emailVerificationTokens sample_db))
   \<and> token_a \<in> set (emailVerificationTokens sample_db)
   \<and> \<not> t_used token_a \<and> 0 < t_expiresAt token_a
   \<and> fst (verifyEmail 0 sample_db ''aaaa'') =
        Inr \<lparr>ok_success = True, ok_message = ''Email verified successfully''\<rparr>
   \<and> verifyEmail 5 (snd (verifyEmail 0 sample_db ''aaaa'')) ''aaaa'' =
        (Inl (Error ''Invalid or expired verification token''), snd (verifyEmail 0 sample_db ''aaaa''))
   \<and> fst (resetPassword sample_env 0 0 sample_db ''aaaa'' ''new'') =
        Inr \<lparr>ok_success = True, ok_message = ''Password reset successful''\<rparr>
   \<and> resetPassword sample_env 5 1 (snd (resetPassword sample_env 0 0 sample_db ''aaaa'' ''new''))
        ''aaaa'' ''newer'' =
        (Inl (Error ''Invalid or expired reset token''),
         snd (resetPassword sample_env 0 0 sample_db ''aaaa'' ''new''))"
proof -
  have hyp1: "distinct (map t_token (emailVerificationTokens sample_db))
      \<and> token_a \<in> set (emailVerificationTokens sample_db)
      \<and> \<not> t_used token_a \<and> 0 < t_expiresAt token_a"
    using sample_tokens_distinct by (simp add: sample_verification_tokens) (simp add: token_a_def)
  have hyp2: "distinct (map t_token (passwordResetTokens sample_db))
      \<and> token_a \<in> set (passwordResetTokens sample_db)
      \<and> \<not> t_used token_a \<and> 0 < t_expiresAt token_a"
    using sample_tokens_distinct by (simp add: sample_reset_tokens) (simp add: token_a_def)
  note inst = consume_twice_second_fails
      [where d = sample_db and r = token_a and q = token_a and now = 0 and now' = 5
         and pw = "''new''" and pw' = "''newer''" and salt = 0 and salt' = 1 and E = sample_env]
  have tok: "t_token token_a = ''aaaa''"
    by (simp add: token_a_def)
  from inst hyp1 have v: "verifyEmail 0 sample_db ''aaaa'' =
        (Inr \<lparr>ok_success = True, ok_message = ''Email verified successfully''\<rparr>,
         mark_verification_token_used (t_id token_a) (update_user_verified (t_userId token_a) 0 sample_db))
     \<and> verifyEmail 5 (mark_verification_token_used (t_id token_a)
                         (update_user_verified (t_userId token_a) 0 sample_db)) ''aaaa'' =
        (Inl (Error ''Invalid or expired verification token''),
         mark_verification_token_used (t_id token_a) (update_user_verified (t_userId token_a) 0 sample_db))"
    unfolding Let_def tok by blast
  from inst hyp2 have p: "resetPassword sample_env 0 0 sample_db ''aaaa'' ''new'' =
        (Inr \<lparr>ok_success = True, ok_message = ''Password reset successful''\<rparr>,
         mark_reset_token_used (t_id token_a)
           (update_user_password (t_userId token_a) (bcrypt_hash sample_env ''new'' 10 0) 0 sample_db))
     \<and> resetPassword sample_env 5 1 (mark_reset_token_used (t_id token_a)
           (update_user_password (t_userId token_a) (bcrypt_hash sample_env ''new'' 10 0) 0 sample_db))
           ''aaaa'' ''newer'' =
        (Inl (Error ''Invalid or expired reset token''),
         mark_reset_token_used (t_id token_a)
           (update_user_password (t_userId token_a) (bcrypt_hash sample_env ''new'' 10 0) 0 sample_db))"
    unfolding Let_def tok by blast
  show ?thesis
    using hyp1 v p by simp
qed

text \<open>
  C5 as stated has the first call return the owning user id. The two sample tokens
  belong to users 1 and 2, and consuming either returns the same object.
\<close>

theorem consume_returns_no_user_id_counterexample:
  "map_option t_userId (select_valid_token (emailVerificationTokens sample_db) ''aaaa'' 0) = Some 1
   \<and> map_option t_userId (select_valid_token (emailVerificationTokens sample_db) ''bbbb'' 0) = Some 2
   \<and> fst (verifyEmail 0 sample_db ''aaaa'') =
        Inr \<lparr>ok_success = True, ok_message = ''Email verified successfully''\<rparr>
   \<and> fst (verifyEmail 0 sample_db ''bbbb'') =
        Inr \<lparr>ok_success = True, ok_message = ''Email verified successfully''\<rparr>
   \<and> fst (resetPassword sample_env 0 0 sample_db ''aaaa'' ''new'') =
        Inr \<lparr>ok_success = True, ok_message = ''Password reset successful''\<rparr>
   \<and> fst (resetPassword sample_env 0 0 sample_db ''bbbb'' ''new'') =
        Inr \<lparr>ok_success = True, ok_message = ''Password reset successful''\<rparr>"
proof -
  have a: "t_userId token_a = 1" and b: "t_userId token_b = 2"
    by (simp_all add: token_a_def token_b_def)
  show ?thesis
    by (simp add: verifyEmail_def resetPassword_def Let_def sample_verification_tokens
        sample_reset_tokens sample_select_a sample_select_b a b)
qed


section \<open>C2: two requests carrying one token\<close>

lemma step_finished [simp]: "consume_step E now req (Finished x) d = (Finished x, d)"
  by (cases req) simp_all

lemma interleaved_reset:
  assumes "select_valid_token (passwordResetTokens d) token ta = Some r"
      and "select_valid_token (passwordResetTokens d) token tb = Some r'"
  shows "run_schedule E [(True, ta), (False, tb), (True, tc), (True, td), (False, te), (False, tf)]
           (in_flight (ResetPassword token pwA saltA) (ResetPassword token pwB saltB) d)
         = \<lparr>req_A = ResetPassword token pwA saltA,
            pc_A = Finished (Inr \<lparr>ok_success = True, ok_message = ''Password reset successful''\<rparr>),
            req_B = ResetPassword token pwB saltB,
            pc_B = Finished (Inr \<lparr>ok_success = True, ok_message = ''Password reset successful''\<rparr>),
            store = mark_reset_token_used (t_id r')
                      (update_user_password (t_userId r') (bcrypt_hash E pwB 10 saltB) te
                        (mark_reset_token_used (t_id r)
                          (update_user_password (t_userId r) (bcrypt_hash E pwA 10 saltA) tc d)))\<rparr>"
  using assms by (simp add: in_flight_def)

lemma interleaved_verify:
  assumes "select_valid_token (emailVerificationTokens d) token ta = Some r"
      and "select_valid_token (emailVerificationTokens d) token tb = Some r'"
  shows "run_schedule E [(True, ta), (False, tb), (True, tc), (True, td), (False, te), (False, tf)]
           (in_flight (VerifyEmail token) (VerifyEmail token) d)
         = \<lparr>req_A = VerifyEmail token,
            pc_A = Finished (Inr \<lparr>ok_success = True, ok_message = ''Email verified successfully''\<rparr>),
            req_B = VerifyEmail token,
            pc_B = Finished (Inr \<lparr>ok_success = True, ok_message = ''Email verified successfully''\<rparr>),
            store = mark_verification_token_used (t_id r')
                      (update_user_verified (t_userId r') te
                        (mark_verification_token_used (t_id r)
                          (update_user_verified (t_userId r) tc d)))\<rparr>"
  using assms by (simp add: in_flight_def)

lemma serial_reset:
  assumes "distinct (map t_token (passwordResetTokens d))"
  shows "pc_B (run_schedule E [(True, ta), (True, tb), (True, tc), (False, td), (False, te), (False, tf)]
           (in_flight (ResetPassword token pwA saltA) (ResetPassword token pwB saltB) d))
           = Finished (Inl (Error ''Invalid or expired reset token''))
       \<or> pc_A (run_schedule E [(True, ta), (True, tb), (True, tc), (False, td), (False, te), (False, tf)]
           (in_flight (ResetPassword token pwA saltA) (ResetPassword token pwB saltB) d))
           = Finished (Inl (Error ''Invalid or expired reset token''))"
proof (cases "select_valid_token (passwordResetTokens d) token ta")
  case None
  then show ?thesis by (simp add: in_flight_def split: option.splits)
next
  case (Some r)
  then have r: "r \<in> set (passwordResetTokens d)" "t_token r = token"
    by (auto dest: select_valid_token_Some)
  have "select_valid_token (mark_used (t_id r) (passwordResetTokens d)) token td = None"
    using select_after_mark_used[OF assms r(1), of td] r(2) by simp
  with Some show ?thesis by (simp add: in_flight_def)
qed

lemma serial_verify:
  assumes "distinct (map t_token (emailVerificationTokens d))"
  shows "pc_B (run_schedule E [(True, ta), (True, tb), (True, tc), (False, td), (False, te), (False, tf)]
           (in_flight (VerifyEmail token) (VerifyEmail token) d))
           = Finished (Inl (Error ''Invalid or expired verification token''))
       \<or> pc_A (run_schedule E [(True, ta), (True, tb), (True, tc), (False, td), (False, te), (False, tf)]
           (in_flight (VerifyEmail token) (VerifyEmail token) d))
           = Finished (Inl (Error ''Invalid or expired verification token''))"
proof (cases "select_valid_token (emailVerificationTokens d) token ta")
  case None
  then show ?thesis by (simp add: in_flight_def split: option.splits)
next
  case (Some r)
  then have r: "r \<in> set (emailVerificationTokens d)" "t_token r = token"
    by (auto dest: select_valid_token_Some)
  have "select_valid_token (mark_used (t_id r) (emailVerificationTokens d)) token td = None"
    using select_after_mark_used[OF assms r(1), of td] r(2) by simp
  with Some show ?thesis by (simp add: in_flight_def)
qed


lemma run_schedule_other_keeps_A:
  "\<forall>p \<in> set sched. \<not> fst p \<Longrightarrow> pc_A (run_schedule E sched s) = pc_A s"
proof (induction sched arbitrary: s)
  case Nil
  then show ?case by simp
next
  case (Cons p sched)
  obtain who now where p: "p = (who, now)" by (cases p)
  with Cons.prems have "\<not> who" by simp
  obtain pc' d' where st: "consume_step E now (req_B s) (pc_B s) (store s) = (pc', d')"
    by (cases "consume_step E now (req_B s) (pc_B s) (store s)")
  have "pc_A (run_schedule E (p # sched) s) = pc_A (run_schedule E sched (s\<lparr>pc_B := pc', store := d'\<rparr>))"
    using p \<open>\<not> who\<close> st by simp
  also have "\<dots> = pc_A (s\<lparr>pc_B := pc', store := d'\<rparr>)"
    using Cons.prems by (intro Cons.IH) simp
  finally show ?case by simp
qed

lemma run_schedule_append:
  "run_schedule E (xs @ ys) s = run_schedule E ys (run_schedule E xs s)"
proof (induction xs arbitrary: s)
  case Nil
  then show ?case by simp
next
  case (Cons p xs)
  obtain who now where p: "p = (who, now)" by (cases p)
  show ?case
    unfolding p by (cases who) (simp_all add: Cons.IH split: prod.splits)
qed

lemma serial_pc_A:
  "pc_A (run_schedule E [(True, ta), (True, tb), (True, tc), (False, td), (False, te), (False, tf)] s)
   = pc_A (run_schedule E [(True, ta), (True, tb), (True, tc)] s)"
proof -
  have "run_schedule E [(True, ta), (True, tb), (True, tc), (False, td), (False, te), (False, tf)] s
      = run_schedule E [(False, td), (False, te), (False, tf)]
          (run_schedule E [(True, ta), (True, tb), (True, tc)] s)"
    using run_schedule_append[of E "[(True, ta), (True, tb), (True, tc)]"
        "[(False, td), (False, te), (False, tf)]" s] by simp
  moreover have "pc_A (run_schedule E [(False, td), (False, te), (False, tf)]
          (run_schedule E [(True, ta), (True, tb), (True, tc)] s))
      = pc_A (run_schedule E [(True, ta), (True, tb), (True, tc)] s)"
    by (rule run_schedule_other_keeps_A) simp
  ultimately show ?thesis by (simp only:)
qed

lemma serial_reset_exact:
  assumes "distinct (map t_token (passwordResetTokens d))"
      and "select_valid_token (passwordResetTokens d) token ta = Some r"
  shows "pc_A (run_schedule E [(True, ta), (True, tb), (True, tc), (False, td), (False, te), (False, tf)]
           (in_flight (ResetPassword token pwA saltA) (ResetPassword token pwB saltB) d))
           = Finished (Inr \<lparr>ok_success = True, ok_message = ''Password reset successful''\<rparr>)
       \<and> pc_B (run_schedule E [(True, ta), (True, tb), (True, tc), (False, td), (False, te), (False, tf)]
           (in_flight (ResetPassword token pwA saltA) (ResetPassword token pwB saltB) d))
           = Finished (Inl (Error ''Invalid or expired reset token''))"
proof -
  from assms(2) have r: "r \<in> set (passwordResetTokens d)" "t_token r = token"
    by (auto dest: select_valid_token_Some)
  have "select_valid_token (mark_used (t_id r) (passwordResetTokens d)) token td = None"
    using select_after_mark_used[OF assms(1) r(1), of td] r(2) by simp
  with assms(2) show ?thesis by (simp add: in_flight_def)
qed

lemma serial_verify_exact:
  assumes "distinct (map t_token (emailVerificationTokens d))"
      and "select_valid_token (emailVerificationTokens d) token ta = Some r"
  shows "pc_A (run_schedule E [(True, ta), (True, tb), (True, tc), (False, td), (False, te), (False, tf)]
           (in_flight (VerifyEmail token) (VerifyEmail token) d))
           = Finished (Inr \<lparr>ok_success = True, ok_message = ''Email verified successfully''\<rparr>)
       \<and> pc_B (run_schedule E [(True, ta), (True, tb), (True, tc), (False, td), (False, te), (False, tf)]
           (in_flight (VerifyEmail token) (VerifyEmail token) d))
           = Finished (Inl (Error ''Invalid or expired verification token''))"
proof -
  from assms(2) have r: "r \<in> set (emailVerificationTokens d)" "t_token r = token"
    by (auto dest: select_valid_token_Some)
  have "select_valid_token (mark_used (t_id r) (emailVerificationTokens d)) token td = None"
    using select_after_mark_used[OF assms(1) r(1), of td] r(2) by simp
  with assms(2) show ?thesis by (simp add: in_flight_def)
qed

lemma step_after_select:
  assumes "select_found req pc"
  shows "select_found req (fst (consume_step E now req pc d))
       \<and> statements_left (fst (consume_step E now req pc d)) = statements_left pc - 1"
  using assms by (cases req; cases pc) simp_all

lemma run_schedule_requests [simp]:
  "req_A (run_schedule E sched s) = req_A s" "req_B (run_schedule E sched s) = req_B s"
proof (induction sched arbitrary: s)
  case Nil
  { case 1 show ?case by simp }
  { case 2 show ?case by simp }
next
  case (Cons p sched)
  obtain who now where p: "p = (who, now)" by (cases p)
  { case 1 show ?case unfolding p by (cases who) (simp_all add: Cons.IH split: prod.splits) }
  { case 2 show ?case unfolding p by (cases who) (simp_all add: Cons.IH split: prod.splits) }
qed

lemma run_after_selects:
  assumes "select_found (req_A s) (pc_A s)" "select_found (req_B s) (pc_B s)"
      and "statements_left (pc_A s) \<le> length (filter fst rest)"
      and "statements_left (pc_B s) \<le> length (filter (\<lambda>p. \<not> fst p) rest)"
  shows "pc_A (run_schedule E rest s) = Finished (Inr (success_of (req_A s)))
       \<and> pc_B (run_schedule E rest s) = Finished (Inr (success_of (req_B s)))"
  using assms
proof (induction rest arbitrary: s)
  case Nil
  then have "statements_left (pc_A s) = 0" "statements_left (pc_B s) = 0" by simp_all
  with Nil.prems(1,2) show ?case
    by (cases "pc_A s"; cases "pc_B s") simp_all
next
  case (Cons p rest)
  obtain who now where p: "p = (who, now)" by (cases p)
  show ?case
  proof (cases who)
    case True
    obtain pc' d' where st: "consume_step E now (req_A s) (pc_A s) (store s) = (pc', d')"
      by (cases "consume_step E now (req_A s) (pc_A s) (store s)")
    let ?s = "s\<lparr>pc_A := pc', store := d'\<rparr>"
    from step_after_select[OF Cons.prems(1), of E now "store s"] st
    have a: "select_found (req_A s) pc'" "statements_left pc' = statements_left (pc_A s) - 1"
      by simp_all
    have "pc_A (run_schedule E rest ?s) = Finished (Inr (success_of (req_A ?s)))
        \<and> pc_B (run_schedule E rest ?s) = Finished (Inr (success_of (req_B ?s)))"
      using a Cons.prems p True by (intro Cons.IH) simp_all
    then show ?thesis using p True st by simp
  next
    case False
    obtain pc' d' where st: "consume_step E now (req_B s) (pc_B s) (store s) = (pc', d')"
      by (cases "consume_step E now (req_B s) (pc_B s) (store s)")
    let ?s = "s\<lparr>pc_B := pc', store := d'\<rparr>"
    from step_after_select[OF Cons.prems(2), of E now "store s"] st
    have a: "select_found (req_B s) pc'" "statements_left pc' = statements_left (pc_B s) - 1"
      by simp_all
    have "pc_A (run_schedule E rest ?s) = Finished (Inr (success_of (req_A ?s)))
        \<and> pc_B (run_schedule E rest ?s) = Finished (Inr (success_of (req_B ?s)))"
      using a Cons.prems p False by (intro Cons.IH) simp_all
    then show ?thesis using p False st by simp
  qed
qed

lemma both_selects_first_reset:
  assumes "select_valid_token (passwordResetTokens d) token ta = Some r"
      and "select_valid_token (passwordResetTokens d) token tb = Some r'"
      and "a \<noteq> b"
      and "2 \<le> length (filter fst rest)" "2 \<le> length (filter (\<lambda>p. \<not> fst p) rest)"
  shows "pc_A (run_schedule E ((a, ta) # (b, tb) # rest)
            (in_flight (ResetPassword token pwA saltA) (ResetPassword token pwB saltB) d))
          = Finished (Inr \<lparr>ok_success = True, ok_message = ''Password reset successful''\<rparr>)
       \<and> pc_B (run_schedule E ((a, ta) # (b, tb) # rest)
            (in_flight (ResetPassword token pwA saltA) (ResetPassword token pwB saltB) d))
          = Finished (Inr \<lparr>ok_success = True, ok_message = ''Password reset successful''\<rparr>)"
proof -
  let ?A = "ResetPassword token pwA saltA" and ?B = "ResetPassword token pwB saltB"
  have "\<exists>x y. run_schedule E ((a, ta) # (b, tb) # rest) (in_flight ?A ?B d)
      = run_schedule E rest \<lparr>req_A = ?A, pc_A = Selected x, req_B = ?B, pc_B = Selected y, store = d\<rparr>"
    using assms(1,2,3) by (cases a; cases b) (auto simp: in_flight_def)
  then obtain x y where run: "run_schedule E ((a, ta) # (b, tb) # rest) (in_flight ?A ?B d)
      = run_schedule E rest \<lparr>req_A = ?A, pc_A = Selected x, req_B = ?B, pc_B = Selected y, store = d\<rparr>"
    by blast
  show ?thesis
    unfolding run
    using run_after_selects[of "\<lparr>req_A = ?A, pc_A = Selected x, req_B = ?B, pc_B = Selected y, store = d\<rparr>" rest E]
      assms(4,5) by simp
qed

lemma both_selects_first_verify:
  assumes "select_valid_token (emailVerificationTokens d) token ta = Some r"
      and "select_valid_token (emailVerificationTokens d) token tb = Some r'"
      and "a \<noteq> b"
      and "2 \<le> length (filter fst rest)" "2 \<le> length (filter (\<lambda>p. \<not> fst p) rest)"
  shows "pc_A (run_schedule E ((a, ta) # (b, tb) # rest)
            (in_flight (VerifyEmail token) (VerifyEmail token) d))
          = Finished (Inr \<lparr>ok_success = True, ok_message = ''Email verified successfully''\<rparr>)
       \<and> pc_B (run_schedule E ((a, ta) # (b, tb) # rest)
            (in_flight (VerifyEmail token) (VerifyEmail token) d))
          = Finished (Inr \<lparr>ok_success = True, ok_message = ''Email verified successfully''\<rparr>)"
proof -
  let ?A = "VerifyEmail token"
  have "\<exists>x y. run_schedule E ((a, ta) # (b, tb) # rest) (in_flight ?A ?A d)
      = run_schedule E rest \<lparr>req_A = ?A, pc_A = Selected x, req_B = ?A, pc_B = Selected y, store = d\<rparr>"
    using assms(1,2,3) by (cases a; cases b) (auto simp: in_flight_def)
  then obtain x y where run: "run_schedule E ((a, ta) # (b, tb) # rest) (in_flight ?A ?A d)
      = run_schedule E rest \<lparr>req_A = ?A, pc_A = Selected x, req_B = ?A, pc_B = Selected y, store = d\<rparr>"
    by blast
  show ?thesis
    unfolding run
    using run_after_selects[of "\<lparr>req_A = ?A, pc_A = Selected x, req_B = ?A, pc_B = Selected y, store = d\<rparr>" rest E]
      assms(4,5) by simp
qed

text \<open>
  C2 as the code has it. The update that sets \<open>used\<close> is keyed on the row id alone
  (\<open>mark_used\<close>), not on \<open>used = false\<close>. Two requests of one kind carrying one token
  string do not both succeed when the store serves all three statements of one before
  the first of the other (token strings being unique): one of them ends with the
  invalid-or-expired error, and when the first finds an unused, unexpired row it is
  the first that succeeds and the second that fails. When the store serves both selects
  before either update (the schedule opens with one statement of each request, in
  either order), each select finds an unused, unexpired row, and the rest of the
  schedule, in whatever order, lets each request issue its two updates, both requests
  end with the success object.
\<close>

theorem consume_race_serial_only:
  "(distinct (map t_token (passwordResetTokens d)) \<longrightarrow>
      (let s = run_schedule E [(True, ta), (True, tb), (True, tc), (False, td), (False, te), (False, tf)]
                 (in_flight (ResetPassword token pwA saltA) (ResetPassword token pwB saltB) d)
       in pc_B s = Finished (Inl (Error ''Invalid or expired reset token''))
          \<or> pc_A s = Finished (Inl (Error ''Invalid or expired reset token''))))
   \<and> (distinct (map t_token (emailVerificationTokens d)) \<longrightarrow>
      (let s = run_schedule E [(True, ta), (True, tb), (True, tc), (False, td), (False, te), (False, tf)]
                 (in_flight (VerifyEmail token) (VerifyEmail token) d)
       in pc_B s = Finished (Inl (Error ''Invalid or expired verification token''))
          \<or> pc_A s = Finished (Inl (Error ''Invalid or expired verification token''))))
   \<and> (distinct (map t_token (passwordResetTokens d))
      \<and> select_valid_token (passwordResetTokens d) token ta = Some r \<longrightarrow>
      (let s = run_schedule E [(True, ta), (True, tb), (True, tc), (False, td), (False, te), (False, tf)]
                 (in_flight (ResetPassword token pwA saltA) (ResetPassword token pwB saltB) d)
       in pc_A s = Finished (Inr \<lparr>ok_success = True, ok_message = ''Password reset successful''\<rparr>)
          \<and> pc_B s = Finished (Inl (Error ''Invalid or expired reset token''))))
   \<and> (distinct (map t_token (emailVerificationTokens d))
      \<and> select_valid_token (emailVerificationTokens d) token ta = Some r \<longrightarrow>
      (let s = run_schedule E [(True, ta), (True, tb), (True, tc), (False, td), (False, te), (False, tf)]
                 (in_flight (VerifyEmail token) (VerifyEmail token) d)
       in pc_A s = Finished (Inr \<lparr>ok_success = True, ok_message = ''Email verified successfully''\<rparr>)
          \<and> pc_B s = Finished (Inl (Error ''Invalid or expired verification token''))))
   \<and> (select_valid_token (passwordResetTokens d) token ta = Some r
      \<and> select_valid_token (passwordResetTokens d) token tb = Some r'
      \<and> a \<noteq> b
      \<and> 2 \<le> length (filter fst rest) \<and> 2 \<le> length (filter (\<lambda>p. \<not> fst p) rest) \<longrightarrow>
      (let s = run_schedule E ((a, ta) # (b, tb) # rest)
                 (in_flight (ResetPassword token pwA saltA) (ResetPassword token pwB saltB) d)
       in pc_A s = Finished (Inr \<lparr>ok_success = True, ok_message = ''Password reset successful''\<rparr>)
          \<and> pc_B s = Finished (Inr \<lparr>ok_success = True, ok_message = ''Password reset successful''\<rparr>)))
   \<and> (select_valid_token (emailVerificationTokens d) token ta = Some r
      \<and> select_valid_token (emailVerificationTokens d) token tb = Some r'
      \<and> a \<noteq> b
      \<and> 2 \<le> length (filter fst rest) \<and> 2 \<le> length (filter (\<lambda>p. \<not> fst p) rest) \<longrightarrow>
      (let s = run_schedule E ((a, ta) # (b, tb) # rest)
                 (in_flight (VerifyEmail token) (VerifyEmail token) d)
       in pc_A s = Finished (Inr \<lparr>ok_success = True, ok_message = ''Email verified successfully''\<rparr>)
          \<and> pc_B s = Finished (Inr \<lparr>ok_success = True, ok_message = ''Email verified successfully''\<rparr>)))"
proof (intro conjI impI)
  assume "distinct (map t_token (passwordResetTokens d))"
  then show "let s = run_schedule E [(True, ta), (True, tb), (True, tc), (False, td), (False, te), (False, tf)]
                 (in_flight (ResetPassword token pwA saltA) (ResetPassword token pwB saltB) d)
       in pc_B s = Finished (Inl (Error ''Invalid or expired reset token''))
          \<or> pc_A s = Finished (Inl (Error ''Invalid or expired reset token''))"
    unfolding Let_def by (rule serial_reset)
next
  assume "distinct (map t_token (emailVerificationTokens d))"
  then show "let s = run_schedule E [(True, ta), (True, tb), (True, tc), (False, td), (False, te), (False, tf)]
                 (in_flight (VerifyEmail token) (VerifyEmail token) d)
       in pc_B s = Finished (Inl (Error ''Invalid or expired verification token''))
          \<or> pc_A s = Finished (Inl (Error ''Invalid or expired verification token''))"
    unfolding Let_def by (rule serial_verify)
next
  assume "distinct (map t_token (passwordResetTokens d))
      \<and> select_valid_token (passwordResetTokens d) token ta = Some r"
  then have h: "distinct (map t_token (passwordResetTokens d))"
      "select_valid_token (passwordResetTokens d) token ta = Some r"
    by simp_all
  show "let s = run_schedule E [(True, ta), (True, tb), (True, tc), (False, td), (False, te), (False, tf)]
                 (in_flight (ResetPassword token pwA saltA) (ResetPassword token pwB saltB) d)
       in pc_A s = Finished (Inr \<lparr>ok_success = True, ok_message = ''Password reset successful''\<rparr>)
          \<and> pc_B s = Finished (Inl (Error ''Invalid or expired reset token''))"
    unfolding Let_def by (rule serial_reset_exact[OF h])
next
  assume "distinct (map t_token (emailVerificationTokens d))
      \<and> select_valid_token (emailVerificationTokens d) token ta = Some r"
  then have h: "distinct (map t_token (emailVerificationTokens d))"
      "select_valid_token (emailVerificationTokens d) token ta = Some r"
    by simp_all
  show "let s = run_schedule E [(True, ta), (True, tb), (True, tc), (False, td), (False, te), (False, tf)]
                 (in_flight (VerifyEmail token) (VerifyEmail token) d)
       in pc_A s = Finished (Inr \<lparr>ok_success = True, ok_message = ''Email verified successfully''\<rparr>)
          \<and> pc_B s = Finished (Inl (Error ''Invalid or expired verification token''))"
    unfolding Let_def by (rule serial_verify_exact[OF h])
next
  assume "select_valid_token (passwordResetTokens d) token ta = Some r
      \<and> select_valid_token (passwordResetTokens d) token tb = Some r'
      \<and> a \<noteq> b
      \<and> 2 \<le> length (filter fst rest) \<and> 2 \<le> length (filter (\<lambda>p. \<not> fst p) rest)"
  then have h: "select_valid_token (passwordResetTokens d) token ta = Some r"
      "select_valid_token (passwordResetTokens d) token tb = Some r'"
      "a \<noteq> b"
      "2 \<le> length (filter fst rest)" "2 \<le> length (filter (\<lambda>p. \<not> fst p) rest)"
    by simp_all
  show "let s = run_schedule E ((a, ta) # (b, tb) # rest)
                 (in_flight (ResetPassword token pwA saltA) (ResetPassword token pwB saltB) d)
       in pc_A s = Finished (Inr \<lparr>ok_success = True, ok_message = ''Password reset successful''\<rparr>)
          \<and> pc_B s = Finished (Inr \<lparr>ok_success = True, ok_message = ''Password reset successful''\<rparr>)"
    unfolding Let_def by (rule both_selects_first_reset[OF h])
next
  assume "select_valid_token (emailVerificationTokens d) token ta = Some r
      \<and> select_valid_token (emailVerificationTokens d) token tb = Some r'
      \<and> a \<noteq> b
      \<and> 2 \<le> length (filter fst rest) \<and> 2 \<le> length (filter (\<lambda>p. \<not> fst p) rest)"
  then have h: "select_valid_token (emailVerificationTokens d) token ta = Some r"
      "select_valid_token (emailVerificationTokens d) token tb = Some r'"
      "a \<noteq> b"
      "2 \<le> length (filter fst rest)" "2 \<le> length (filter (\<lambda>p. \<not> fst p) rest)"
    by simp_all
  show "let s = run_schedule E ((a, ta) # (b, tb) # rest)
                 (in_flight (VerifyEmail token) (VerifyEmail token) d)
       in pc_A s = Finished (Inr \<lparr>ok_success = True, ok_message = ''Email verified successfully''\<rparr>)
          \<and> pc_B s = Finished (Inr \<lparr>ok_success = True, ok_message = ''Email verified successfully''\<rparr>)"
    unfolding Let_def by (rule both_selects_first_verify[OF h])
qed

theorem consume_race_serial_only_witness:
  "distinct (map t_token (passwordResetTokens sample_db))
   \<and> distinct (map t_token (emailVerificationTokens sample_db))
   \<and> select_valid_token (passwordResetTokens sample_db) ''aaaa'' 0 = Some token_a
   \<and> select_valid_token (emailVerificationTokens sample_db) ''aaaa'' 0 = Some token_a
   \<and> False \<noteq> True
   \<and> 2 \<le> length (filter fst [(False, 0::int), (True, 0), (True, 0), (False, 0)])
   \<and> 2 \<le> length (filter (\<lambda>p. \<not> fst p) [(False, 0::int), (True, 0), (True, 0), (False, 0)])
   \<and> pc_A (run_schedule sample_env
              [(True, 0), (True, 0), (True, 0), (False, 0), (False, 0), (False, 0)]
              (in_flight (ResetPassword ''aaaa'' ''pA'' 0) (ResetPassword ''aaaa'' ''pB'' 1) sample_db))
        = Finished (Inr \<lparr>ok_success = True, ok_message = ''Password reset successful''\<rparr>)
   \<and> pc_B (run_schedule sample_env
              [(True, 0), (True, 0), (True, 0), (False, 0), (False, 0), (False, 0)]
              (in_flight (ResetPassword ''aaaa'' ''pA'' 0) (ResetPassword ''aaaa'' ''pB'' 1) sample_db))
        = Finished (Inl (Error ''Invalid or expired reset token''))
   \<and> pc_B (run_schedule sample_env
              [(True, 0), (True, 0), (True, 0), (False, 0), (False, 0), (False, 0)]
              (in_flight (VerifyEmail ''aaaa'') (VerifyEmail ''aaaa'') sample_db))
        = Finished (Inl (Error ''Invalid or expired verification token''))
   \<and> pc_A (run_schedule sample_env
              [(False, 0), (True, 0), (False, 0), (True, 0), (True, 0), (False, 0)]
              (in_flight (ResetPassword ''aaaa'' ''pA'' 0) (ResetPassword ''aaaa'' ''pB'' 1) sample_db))
        = Finished (Inr \<lparr>ok_success = True, ok_message = ''Password reset successful''\<rparr>)
   \<and> pc_B (run_schedule sample_env
              [(False, 0), (True, 0), (False, 0), (True, 0), (True, 0), (False, 0)]
              (in_flight (ResetPassword ''aaaa'' ''pA'' 0) (ResetPassword ''aaaa'' ''pB'' 1) sample_db))
        = Finished (Inr \<lparr>ok_success = True, ok_message = ''Password reset successful''\<rparr>)
   \<and> pc_B (run_schedule sample_env
              [(False, 0), (True, 0), (False, 0), (True, 0), (True, 0), (False, 0)]
              (in_flight (VerifyEmail ''aaaa'') (VerifyEmail ''aaaa'') sample_db))
        = Finished (Inr \<lparr>ok_success = True, ok_message = ''Email verified successfully''\<rparr>)"
proof -
  have h1: "distinct (map t_token (passwordResetTokens sample_db))"
    and h2: "distinct (map t_token (emailVerificationTokens sample_db))"
    and h3: "select_valid_token (passwordResetTokens sample_db) ''aaaa'' 0 = Some token_a"
    and h4: "select_valid_token (emailVerificationTokens sample_db) ''aaaa'' 0 = Some token_a"
    using sample_tokens_distinct sample_select_a
    by (simp_all add: sample_reset_tokens sample_verification_tokens)
  have h5: "False \<noteq> True"
    and h6: "2 \<le> length (filter fst [(False, 0::int), (True, 0), (True, 0), (False, 0)])"
    and h7: "2 \<le> length (filter (\<lambda>p. \<not> fst p) [(False, 0::int), (True, 0), (True, 0), (False, 0)])"
    by simp_all
  note inst = consume_race_serial_only
      [where d = sample_db and E = sample_env and token = "''aaaa''" and r = token_a
         and r' = token_a and ta = 0 and tb = 0 and tc = 0 and td = 0 and te = 0 and tf = 0
         and pwA = "''pA''" and pwB = "''pB''" and saltA = 0 and saltB = 1
         and a = False and b = True
         and rest = "[(False, 0), (True, 0), (True, 0), (False, 0)]",
       unfolded Let_def]
  from inst h1 h2 h3 h4 h5 h6 h7 show ?thesis
    by blast
qed

text \<open>
  C2 as stated: two concurrent requests with one token never both succeed. On the
  sample store, with both selects served before either update, both password resets
  succeed (the second overwrites the hash the first wrote), and so do both email
  verifications.
\<close>

theorem consume_race_counterexample:
  "pc_A (run_schedule sample_env
           [(True, 0), (False, 0), (True, 0), (True, 0), (False, 0), (False, 0)]
           (in_flight (ResetPassword ''aaaa'' ''pA'' 0) (ResetPassword ''aaaa'' ''pB'' 1) sample_db))
     = Finished (Inr \<lparr>ok_success = True, ok_message = ''Password reset successful''\<rparr>)
   \<and> pc_B (run_schedule sample_env
           [(True, 0), (False, 0), (True, 0), (True, 0), (False, 0), (False, 0)]
           (in_flight (ResetPassword ''aaaa'' ''pA'' 0) (ResetPassword ''aaaa'' ''pB'' 1) sample_db))
     = Finished (Inr \<lparr>ok_success = True, ok_message = ''Password reset successful''\<rparr>)
   \<and> map u_password (users (store (run_schedule sample_env
           [(True, 0), (False, 0), (True, 0), (True, 0), (False, 0), (False, 0)]
           (in_flight (ResetPassword ''aaaa'' ''pA'' 0) (ResetPassword ''aaaa'' ''pB'' 1) sample_db))))
     = [''#pB'', ''#old-b'']
   \<and> pc_A (run_schedule sample_env
           [(True, 0), (False, 0), (True, 0), (True, 0), (False, 0), (False, 0)]
           (in_flight (VerifyEmail ''aaaa'') (VerifyEmail ''aaaa'') sample_db))
     = Finished (Inr \<lparr>ok_success = True, ok_message = ''Email verified successfully''\<rparr>)
   \<and> pc_B (run_schedule sample_env
           [(True, 0), (False, 0), (True, 0), (True, 0), (False, 0), (False, 0)]
           (in_flight (VerifyEmail ''aaaa'') (VerifyEmail ''aaaa'') sample_db))
     = Finished (Inr \<lparr>ok_success = True, ok_message = ''Email verified successfully''\<rparr>)"
proof -
  have h3: "select_valid_token (passwordResetTokens sample_db) ''aaaa'' 0 = Some token_a"
    and h4: "select_valid_token (emailVerificationTokens sample_db) ''aaaa'' 0 = Some token_a"
    using sample_select_a by (simp_all add: sample_reset_tokens sample_verification_tokens)
  have pw: "map u_password (users (mark_reset_token_used (t_id token_a)
              (update_user_password (t_userId token_a) (bcrypt_hash sample_env ''pB'' 10 1) 0
                (mark_reset_token_used (t_id token_a)
                  (update_user_password (t_userId token_a) (bcrypt_hash sample_env ''pA'' 10 0) 0
                     sample_db))))) = [''#pB'', ''#old-b'']"
    by (simp add: update_user_password_def mark_reset_token_used_def sample_users alice_def bob_def
        token_a_def sample_env_def)
  show ?thesis
    unfolding interleaved_reset[OF h3 h3] interleaved_verify[OF h4 h4] using pw by simp
qed

section \<open>C8: login failures are one value\<close>

lemma login_failure:
  "login E now d email password = Inl e \<Longrightarrow> e = Error ''Invalid credentials''"
  by (cases "find (\<lambda>u. u_email u = email) (users d)")
     (simp_all add: login_def split: if_splits)

lemma login_no_user:
  "find (\<lambda>u. u_email u = email) (users d) = None \<Longrightarrow>
     login E now d email password = Inl (Error ''Invalid credentials'')"
  by (simp add: login_def)

lemma login_wrong_password:
  "find (\<lambda>u. u_email u = email) (users d) = Some u \<Longrightarrow>
   \<not> bcrypt_compare E password (u_password u) \<Longrightarrow>
     login E now d email password = Inl (Error ''Invalid credentials'')"
  by (simp add: login_def)

text \<open>
  C8. Any two failing logins, whatever the stores, clocks, emails and passwords, fail
  with the same value, \<open>Error ''Invalid credentials''\<close>; in particular a login that
  finds no user with the email and a login that finds one whose hash does not match
  the password return the same failure.
\<close>

theorem login_failures_indistinguishable:
  "(login E nowA dA emailA passwordA = Inl x \<and> login E' nowB dB emailB passwordB = Inl y
      \<longrightarrow> x = y \<and> x = Error ''Invalid credentials'')
   \<and> (find (\<lambda>u. u_email u = email) (users dA) = None
      \<and> find (\<lambda>u. u_email u = email) (users dB) = Some u
      \<and> \<not> bcrypt_compare E password (u_password u)
      \<longrightarrow> login E nowA dA email password = login E nowB dB email password
          \<and> login E nowA dA email password = Inl (Error ''Invalid credentials''))"
proof (intro conjI impI)
  assume a: "login E nowA dA emailA passwordA = Inl x \<and> login E' nowB dB emailB passwordB = Inl y"
  then have "x = Error ''Invalid credentials''" "y = Error ''Invalid credentials''"
    by (auto dest: login_failure)
  then show "x = y" "x = Error ''Invalid credentials''" by simp_all
next
  assume a: "find (\<lambda>u. u_email u = email) (users dA) = None
      \<and> find (\<lambda>u. u_email u = email) (users dB) = Some u
      \<and> \<not> bcrypt_compare E password (u_password u)"
  then have 1: "login E nowA dA email password = Inl (Error ''Invalid credentials'')"
    by (simp add: login_no_user)
  from a have 2: "login E nowB dB email password = Inl (Error ''Invalid credentials'')"
    by (simp add: login_wrong_password)
  from 1 2 show "login E nowA dA email password = login E nowB dB email password" by simp
  from 1 show "login E nowA dA email password = Inl (Error ''Invalid credentials'')" .
qed

lemma sample_find_alice:
  "find (\<lambda>u. u_email u = ''alice@example.com'') (users sample_db) = Some alice"
  by (simp add: sample_users alice_def)

lemma empty_find_alice:
  "find (\<lambda>u. u_email u = ''alice@example.com'') (users empty_db) = None"
  by (simp add: empty_db_def)

theorem login_failures_indistinguishable_witness:
  "find (\<lambda>u. u_email u = ''alice@example.com'') (users empty_db) = None
   \<and> find (\<lambda>u. u_email u = ''alice@example.com'') (users sample_db) = Some alice
   \<and> \<not> bcrypt_compare sample_env ''guess'' (u_password alice)
   \<and> login sample_env 0 empty_db ''alice@example.com'' ''guess'' = Inl (Error ''Invalid credentials'')
   \<and> login sample_env 9 sample_db ''alice@example.com'' ''guess'' = Inl (Error ''Invalid credentials'')"
proof -
  have h: "find (\<lambda>u. u_email u = ''alice@example.com'') (users empty_db) = None
      \<and> find (\<lambda>u. u_email u = ''alice@example.com'') (users sample_db) = Some alice
      \<and> \<not> bcrypt_compare sample_env ''guess'' (u_password alice)"
    by (simp add: sample_find_alice empty_find_alice) (simp add: sample_env_def alice_def)
  note inst = login_failures_indistinguishable
      [where E = sample_env and E' = sample_env and dA = empty_db and dB = sample_db
         and email = "''alice@example.com''" and password = "''guess''" and u = alice
         and emailA = "''alice@example.com''" and passwordA = "''guess''"
         and emailB = "''alice@example.com''" and passwordB = "''guess''"
         and nowA = 0 and nowB = 9
         and x = "Error ''Invalid credentials''" and y = "Error ''Invalid credentials''"]
  from inst h show ?thesis by metis
qed

section \<open>C9: no projection carries the password hash\<close>

lemma user_object_password:
  "map_of (user_object u) ''password'' = Some (JStr (u_password u))"
  by (simp add: user_object_def)

lemma userWithoutPassword_keys:
  "map fst (userWithoutPassword u) =
     [''id'', ''email'', ''username'', ''avatar'', ''isVerified'', ''preferences'',
      ''createdAt'', ''updatedAt'']"
  by (simp add: userWithoutPassword_def without_key_def user_object_def)

lemma userWithoutPassword_no_password:
  "map_of (userWithoutPassword u) ''password'' = None"
  by (simp add: userWithoutPassword_def without_key_def user_object_def)

lemma register_user_projection:
  assumes "register E today_check now today_incr salt vtok d userData = (Inr res, d')"
  shows "\<exists>u. rr_user res = userWithoutPassword u"
proof -
  obtain lc d0 where chk: "checkDailySignupLimit E today_check d = (lc, d0)"
    by (cases "checkDailySignupLimit E today_check d")
  obtain newUser d1 where ins: "insert_user
                  \<lparr>u_id = 0, u_email = ri_email userData, u_username = ri_username userData,
                    u_password = bcrypt_hash E (ri_password userData) 10 salt,
                    u_avatar = or_default (ri_avatar userData) ''avatar_1'',
                    u_isVerified = False, u_preferences = JObj [],
                    u_createdAt = now, u_updatedAt = now\<rparr> d0 = (newUser, d1)"
    by (cases "insert_user
                  \<lparr>u_id = 0, u_email = ri_email userData, u_username = ri_username userData,
                    u_password = bcrypt_hash E (ri_password userData) 10 salt,
                    u_avatar = or_default (ri_avatar userData) ''avatar_1'',
                    u_isVerified = False, u_preferences = JObj [],
                    u_createdAt = now, u_updatedAt = now\<rparr> d0")
  from assms chk ins have "rr_user res = userWithoutPassword newUser"
    by (auto simp: register_def Let_def split: if_splits)
  then show ?thesis ..
qed

lemma login_user_projection:
  assumes "login E now d email password = Inr res"
  shows "\<exists>u. lr_user res = userWithoutPassword u"
  using assms by (cases "find (\<lambda>u. u_email u = email) (users d)")
    (auto simp: login_def split: if_splits)

lemma getUserById_projection:
  assumes "getUserById d userId = Inr obj"
  shows "\<exists>u. obj = userWithoutPassword u"
  using assms by (cases "find (\<lambda>u. u_id u = userId) (users d)") (auto simp: getUserById_def)

lemma updateProfile_projection:
  assumes "fst (updateProfile now d userId updates) = Inr obj"
  shows "\<exists>u. obj = userWithoutPassword u"
proof -
  let ?ups = "updates\<lparr>p_email := None, p_password := None\<rparr>"
  let ?ret = "map (set_columns (?ups\<lparr>p_updatedAt := Some now\<rparr>))
                (filter (\<lambda>u. u_id u = userId) (users d))"
  show ?thesis
  proof (cases ?ret)
    case Nil
    with assms show ?thesis
      by (simp add: updateProfile_def Let_def split: if_splits)
  next
    case (Cons u us)
    with assms have "obj = userWithoutPassword u"
      by (simp add: updateProfile_def Let_def split: if_splits)
    then show ?thesis ..
  qed
qed

text \<open>
  C9. The object of a stored user has the key \<open>password\<close>, holding the hash. The user
  projection in every successful result of \<open>register\<close>, \<open>login\<close>, \<open>getUserById\<close> and
  \<open>updateProfile\<close> has no key \<open>password\<close>.
\<close>

theorem projections_omit_password:
  "map_of (user_object u) ''password'' = Some (JStr (u_password u))
   \<and> (register E today_check now today_incr salt vtok d userData = (Inr rres, d')
        \<longrightarrow> map_of (rr_user rres) ''password'' = None)
   \<and> (login E now d email password = Inr lres \<longrightarrow> map_of (lr_user lres) ''password'' = None)
   \<and> (getUserById d userId = Inr obj \<longrightarrow> map_of obj ''password'' = None)
   \<and> (fst (updateProfile now d userId updates) = Inr obj' \<longrightarrow> map_of obj' ''password'' = None)"
proof (intro conjI impI)
  show "map_of (user_object u) ''password'' = Some (JStr (u_password u))"
    by (rule user_object_password)
next
  assume "register E today_check now today_incr salt vtok d userData = (Inr rres, d')"
  then obtain v where "rr_user rres = userWithoutPassword v"
    using register_user_projection by blast
  then show "map_of (rr_user rres) ''password'' = None"
    by (simp add: userWithoutPassword_no_password)
next
  assume "login E now d email password = Inr lres"
  then obtain v where "lr_user lres = userWithoutPassword v"
    using login_user_projection by blast
  then show "map_of (lr_user lres) ''password'' = None"
    by (simp add: userWithoutPassword_no_password)
next
  assume "getUserById d userId = Inr obj"
  then obtain v where "obj = userWithoutPassword v"
    using getUserById_projection by blast
  then show "map_of obj ''password'' = None"
    by (simp add: userWithoutPassword_no_password)
next
  assume "fst (updateProfile now d userId updates) = Inr obj'"
  then obtain v where "obj' = userWithoutPassword v"
    using updateProfile_projection by blast
  then show "map_of obj' ''password'' = None"
    by (simp add: userWithoutPassword_no_password)
qed


lemma sample_check_limit:
  "checkDailySignupLimit sample_env ''2024-01-01'' sample_db =
     (\<lparr>lc_allowed = True, lc_count = 0, lc_limit = 300, lc_message = None\<rparr>,
      insert_dailySignup ''2024-01-01'' 0 sample_db)"
  by (simp add: checkDailySignupLimit_def signup_limit_def sample_env_def sample_db_def empty_db_def)

lemma users_insert_dailySignup [simp]: "users (insert_dailySignup day n d) = users d"
  by (simp add: insert_dailySignup_def)

lemma users_seq_insert_dailySignup [simp]: "users_seq (insert_dailySignup day n d) = users_seq d"
  by (simp add: insert_dailySignup_def)

lemma sample_insert_carol:
  "insert_user \<lparr>u_id = 0, u_email = ri_email carol, u_username = ri_username carol,
                 u_password = bcrypt_hash sample_env (ri_password carol) 10 0,
                 u_avatar = or_default (ri_avatar carol) ''avatar_1'',
                 u_isVerified = False, u_preferences = JObj [],
                 u_createdAt = 0, u_updatedAt = 0\<rparr>
       (insert_dailySignup ''2024-01-01'' 0 sample_db)
   = (carol_row,
      (insert_dailySignup ''2024-01-01'' 0 sample_db)
        \<lparr>users := [alice, bob, carol_row], users_seq := 3\<rparr>)"
  by (simp add: insert_user_def carol_def carol_row_def sample_env_def or_default_def Let_def)
     (simp add: sample_db_def)

lemma sample_register:
  "fst (register sample_env ''2024-01-01'' 0 ''2024-01-01'' 0 ''cccc'' sample_db carol) =
     Inr \<lparr>rr_user = userWithoutPassword carol_row, rr_token = ''s3cretuuu'',
          rr_verificationToken = ''cccc''\<rparr>"
proof -
  have j: "generateJWT sample_env 0 (u_id carol_row) = ''s3cretuuu''"
    by (simp add: generateJWT_def sample_env_def carol_row_def numeral_3_eq_3)
  show ?thesis
    unfolding register_def sample_check_limit
    by (simp add: sample_users sample_insert_carol Let_def j)
       (simp add: alice_def bob_def carol_def)
qed

lemma sample_login:
  "login sample_env 0 sample_db ''alice@example.com'' ''old-a'' =
     Inr \<lparr>lr_user = userWithoutPassword alice, lr_token = ''s3cretu''\<rparr>"
proof -
  have "bcrypt_compare sample_env ''old-a'' (u_password alice)"
    by (simp add: sample_env_def alice_def)
  moreover have "generateJWT sample_env 0 (u_id alice) = ''s3cretu''"
    by (simp add: generateJWT_def sample_env_def alice_def)
  ultimately show ?thesis
    by (simp add: login_def sample_find_alice)
qed

lemma sample_getUserById: "getUserById sample_db 1 = Inr (userWithoutPassword alice)"
proof -
  have "find (\<lambda>u. u_id u = 1) (users sample_db) = Some alice"
    by (simp add: sample_users alice_def)
  then show ?thesis by (simp add: getUserById_def)
qed

lemma set_columns_no_updates:
  "set_columns (no_updates\<lparr>p_email := None, p_password := None, p_updatedAt := Some t\<rparr>) u
     = u\<lparr>u_updatedAt := t\<rparr>"
  by (simp add: set_columns_def no_updates_def or_old_def)

lemma sample_updateProfile:
  "fst (updateProfile 7 sample_db 1 no_updates) = Inr (userWithoutPassword (alice\<lparr>u_updatedAt := 7\<rparr>))"
proof -
  have f: "filter (\<lambda>u. u_id u = Suc 0) (users sample_db) = [alice]"
    by (simp add: sample_users alice_def bob_def)
  have n: "p_username (no_updates\<lparr>p_email := None, p_password := None\<rparr>) = None"
    by (simp add: no_updates_def)
  show ?thesis
    by (simp add: updateProfile_def Let_def n f set_columns_no_updates)
qed

theorem projections_omit_password_witness:
  "fst (register sample_env ''2024-01-01'' 0 ''2024-01-01'' 0 ''cccc'' sample_db carol) =
     Inr \<lparr>rr_user = userWithoutPassword carol_row, rr_token = ''s3cretuuu'',
          rr_verificationToken = ''cccc''\<rparr>
   \<and> login sample_env 0 sample_db ''alice@example.com'' ''old-a'' =
     Inr \<lparr>lr_user = userWithoutPassword alice, lr_token = ''s3cretu''\<rparr>
   \<and> getUserById sample_db 1 = Inr (userWithoutPassword alice)
   \<and> fst (updateProfile 7 sample_db 1 no_updates) =
       Inr (userWithoutPassword (alice\<lparr>u_updatedAt := 7\<rparr>))
   \<and> map_of (user_object alice) ''password'' = Some (JStr ''#old-a'')
   \<and> map_of (userWithoutPassword carol_row) ''password'' = None
   \<and> map_of (userWithoutPassword alice) ''password'' = None
   \<and> map_of (userWithoutPassword (alice\<lparr>u_updatedAt := 7\<rparr>)) ''password'' = None"
proof -
  have r: "register sample_env ''2024-01-01'' 0 ''2024-01-01'' 0 ''cccc'' sample_db carol =
     (Inr \<lparr>rr_user = userWithoutPassword carol_row, rr_token = ''s3cretuuu'',
           rr_verificationToken = ''cccc''\<rparr>,
      snd (register sample_env ''2024-01-01'' 0 ''2024-01-01'' 0 ''cccc'' sample_db carol))"
    using sample_register by (simp add: prod_eq_iff)
  note inst = projections_omit_password
      [where E = sample_env and today_check = "''2024-01-01''" and today_incr = "''2024-01-01''"
         and now = 0 and salt = 0 and vtok = "''cccc''" and d = sample_db and userData = carol
         and rres = "\<lparr>rr_user = userWithoutPassword carol_row, rr_token = ''s3cretuuu'',
                       rr_verificationToken = ''cccc''\<rparr>"
         and d' = "snd (register sample_env ''2024-01-01'' 0 ''2024-01-01'' 0 ''cccc'' sample_db carol)"
         and u = alice]
  have a: "map_of (user_object alice) ''password'' = Some (JStr ''#old-a'')"
    using inst by (simp add: alice_def)
  have b: "map_of (userWithoutPassword carol_row) ''password'' = None"
    using inst r by simp
  have c: "map_of (userWithoutPassword alice) ''password'' = None"
    using projections_omit_password
      [where d = sample_db and userId = 1 and obj = "userWithoutPassword alice"]
      sample_getUserById by simp
  have e: "map_of (userWithoutPassword (alice\<lparr>u_updatedAt := 7\<rparr>)) ''password'' = None"
    using projections_omit_password
      [where d = sample_db and userId = 1 and now = 7 and updates = no_updates
         and obj' = "userWithoutPassword (alice\<lparr>u_updatedAt := 7\<rparr>)"]
      sample_updateProfile by simp
  have l: "map_of (lr_user \<lparr>lr_user = userWithoutPassword alice, lr_token = ''s3cretu''\<rparr>)
             ''password'' = None"
    using projections_omit_password
      [where d = sample_db and E = sample_env and now = 0 and email = "''alice@example.com''"
         and password = "''old-a''"
         and lres = "\<lparr>lr_user = userWithoutPassword alice, lr_token = ''s3cretu''\<rparr>"]
      sample_login by simp
  from sample_register sample_login sample_getUserById sample_updateProfile a b c e l
  show ?thesis by simp
qed


section \<open>C10 and C6: updateProfile\<close>

lemma updateProfile_patch_after:
  "snd (snd (updateProfile now d userId updates)) = updates\<lparr>p_email := None, p_password := None\<rparr>"
proof -
  let ?ups = "updates\<lparr>p_email := None, p_password := None\<rparr>"
  let ?ret = "map (set_columns (?ups\<lparr>p_updatedAt := Some now\<rparr>))
                (filter (\<lambda>u. u_id u = userId) (users d))"
  show ?thesis
    by (cases ?ret) (simp_all add: updateProfile_def Let_def)
qed

lemma updateProfile_reads_mutated_patch:
  "updateProfile now d userId updates =
     updateProfile now d userId (updates\<lparr>p_email := None, p_password := None\<rparr>)"
  by (simp add: updateProfile_def)

text \<open>
  C10. Whatever the outcome, the \<open>updates\<close> object after the call is the one given
  with the keys \<open>email\<close> and \<open>password\<close> deleted and every other key as it was; and the
  deletion comes before every store statement: the call behaves as the call on the
  object without the two keys.
\<close>

theorem updateProfile_mutates_patch:
  "snd (snd (updateProfile now d userId updates)) = updates\<lparr>p_email := None, p_password := None\<rparr>
   \<and> p_email (snd (snd (updateProfile now d userId updates))) = None
   \<and> p_password (snd (snd (updateProfile now d userId updates))) = None
   \<and> updateProfile now d userId updates =
       updateProfile now d userId (updates\<lparr>p_email := None, p_password := None\<rparr>)"
  using updateProfile_reads_mutated_patch[of now d userId updates]
  by (simp add: updateProfile_patch_after)

text \<open>
  The second half of C6: the email and the password hash of every stored user are what
  they were, whatever the patch holds under \<open>email\<close> and \<open>password\<close>.
\<close>

lemma set_columns_keeps_email_password:
  "p_email p = None \<Longrightarrow> p_password p = None \<Longrightarrow>
     u_email (set_columns p u) = u_email u \<and> u_password (set_columns p u) = u_password u"
  by (simp add: set_columns_def or_old_def)

lemma map_update_where_keeps:
  assumes "\<And>x. f (g x) = f x"
  shows "map f (map (\<lambda>x. if P x then g x else x) xs) = map f xs"
  by (induction xs) (simp_all add: assms)

lemma updateProfile_store_after:
  "fst (snd (updateProfile now d userId updates)) = d
   \<or> fst (snd (updateProfile now d userId updates)) =
       d\<lparr>users := map (\<lambda>u. if u_id u = userId
                             then set_columns (updates\<lparr>p_email := None, p_password := None,
                                                        p_updatedAt := Some now\<rparr>) u
                             else u) (users d)\<rparr>"
proof -
  let ?ups = "updates\<lparr>p_email := None, p_password := None\<rparr>"
  let ?ret = "map (set_columns (?ups\<lparr>p_updatedAt := Some now\<rparr>))
                (filter (\<lambda>u. u_id u = userId) (users d))"
  show ?thesis
    by (cases ?ret) (simp_all add: updateProfile_def Let_def)
qed

lemma updateProfile_ignores_email_password:
  "map u_email (users (fst (snd (updateProfile now d userId updates)))) = map u_email (users d)
   \<and> map u_password (users (fst (snd (updateProfile now d userId updates)))) = map u_password (users d)"
proof -
  let ?vals = "updates\<lparr>p_email := None, p_password := None, p_updatedAt := Some now\<rparr>"
  let ?new = "map (\<lambda>u. if u_id u = userId then set_columns ?vals u else u) (users d)"
  have k: "u_email (set_columns ?vals u) = u_email u" "u_password (set_columns ?vals u) = u_password u" for u
    using set_columns_keeps_email_password[of ?vals u] by simp_all
  have e: "map u_email ?new = map u_email (users d)"
    by (rule map_update_where_keeps) (rule k)
  have p: "map u_password ?new = map u_password (users d)"
    by (rule map_update_where_keeps) (rule k)
  from updateProfile_store_after[of now d userId updates] e p show ?thesis
    by (elim disjE) simp_all
qed

lemma sample_no_user_99: "filter (\<lambda>u. u_id u = 99) (users sample_db) = []"
  by (simp add: sample_users alice_def bob_def)

lemma sample_update_no_user_99:
  "map (\<lambda>u. if u_id u = 99 then set_columns p u else u) (users sample_db) = users sample_db"
  by (simp add: sample_users alice_def bob_def)

text \<open>
  C6, first half, on the code. User 99 has no row in the sample store. \<open>updateProfile\<close>
  for that id, with an empty patch, ends in the \<^verbatim>\<open>TypeError\<close> of destructuring
  \<^verbatim>\<open>undefined\<close>, where \<open>getUserById\<close> for the same id fails with \<open>User not found\<close>;
  the store is left as it was.
\<close>

theorem updateProfile_missing_user_is_TypeError:
  "getUserById sample_db 99 = Inl (Error ''User not found'')
   \<and> fst (updateProfile 7 sample_db 99 no_updates) = Inl TypeError
   \<and> fst (snd (updateProfile 7 sample_db 99 no_updates)) = sample_db"
proof -
  have g: "find (\<lambda>u. u_id u = 99) (users sample_db) = None"
    by (simp add: sample_users alice_def bob_def)
  have n: "p_username (no_updates\<lparr>p_email := None, p_password := None\<rparr>) = None"
    by (simp add: no_updates_def)
  have u: "updateProfile 7 sample_db 99 no_updates =
             (Inl TypeError, sample_db\<lparr>users := users sample_db\<rparr>,
              no_updates\<lparr>p_email := None, p_password := None\<rparr>)"
    by (simp add: updateProfile_def Let_def n sample_no_user_99 sample_update_no_user_99)
  show ?thesis
    by (simp add: getUserById_def g u)
qed

section \<open>C3: register, then login, then verify\<close>

lemma users_checkDailySignupLimit [simp]:
  "users (snd (checkDailySignupLimit E day d)) = users d"
  by (cases "find (\<lambda>r. ds_date r = day) (dailySignups d)")
     (simp_all add: checkDailySignupLimit_def Let_def)

lemma users_seq_checkDailySignupLimit [simp]:
  "users_seq (snd (checkDailySignupLimit E day d)) = users_seq d"
  by (cases "find (\<lambda>r. ds_date r = day) (dailySignups d)")
     (simp_all add: checkDailySignupLimit_def Let_def)

lemma users_incrementSignupCount [simp]: "users (incrementSignupCount day d) = users d"
  by (cases "find (\<lambda>r. ds_date r = day) (dailySignups d)")
     (simp_all add: incrementSignupCount_def)

lemma users_insert_verification_token [simp]:
  "users (insert_verification_token uid tok ex d) = users d"
  by (simp add: insert_verification_token_def)

text \<open>What a successful \<open>register\<close> has done.\<close>

lemma register_success:
  assumes "register E today_check now today_incr salt vtok d userData = (Inr res, d')"
  shows "lc_allowed (fst (checkDailySignupLimit E today_check d))
       \<and> find (\<lambda>u. u_email u = ri_email userData) (users d) = None
       \<and> find (\<lambda>u. u_username u = ri_username userData) (users d) = None
       \<and> res = \<lparr>rr_user = userWithoutPassword
                    \<lparr>u_id = users_seq d + 1, u_email = ri_email userData,
                      u_username = ri_username userData,
                      u_password = bcrypt_hash E (ri_password userData) 10 salt,
                      u_avatar = or_default (ri_avatar userData) ''avatar_1'',
                      u_isVerified = False, u_preferences = JObj [],
                      u_createdAt = now, u_updatedAt = now\<rparr>,
                 rr_token = generateJWT E now (users_seq d + 1),
                 rr_verificationToken = vtok\<rparr>
       \<and> d' = incrementSignupCount today_incr
               (insert_verification_token (users_seq d + 1) vtok (now + 24 * 60 * 60 * 1000)
                 ((snd (checkDailySignupLimit E today_check d))
                    \<lparr>users := users d @
                       [\<lparr>u_id = users_seq d + 1, u_email = ri_email userData,
                         u_username = ri_username userData,
                         u_password = bcrypt_hash E (ri_password userData) 10 salt,
                         u_avatar = or_default (ri_avatar userData) ''avatar_1'',
                         u_isVerified = False, u_preferences = JObj [],
                         u_createdAt = now, u_updatedAt = now\<rparr>],
                      users_seq := users_seq d + 1\<rparr>))"
proof -
  obtain lc d0 where chk: "checkDailySignupLimit E today_check d = (lc, d0)"
    by (cases "checkDailySignupLimit E today_check d")
  have u0: "users d0 = users d" "users_seq d0 = users_seq d"
    using users_checkDailySignupLimit[of E today_check d]
      users_seq_checkDailySignupLimit[of E today_check d] chk by simp_all
  have 1: "lc_allowed lc"
  proof (rule ccontr)
    assume "\<not> lc_allowed lc"
    with assms chk show False by (simp add: register_def)
  qed
  have 2: "find (\<lambda>u. u_email u = ri_email userData) (users d) = None"
  proof (rule ccontr)
    assume "find (\<lambda>u. u_email u = ri_email userData) (users d) \<noteq> None"
    with assms chk 1 u0 show False by (simp add: register_def)
  qed
  have 3: "find (\<lambda>u. u_username u = ri_username userData) (users d) = None"
  proof (rule ccontr)
    assume "find (\<lambda>u. u_username u = ri_username userData) (users d) \<noteq> None"
    with assms chk 1 2 u0 show False by (simp add: register_def)
  qed
  from assms chk 1 2 3 u0 show ?thesis
    by (simp add: register_def insert_user_def Let_def)
qed

lemma find_append_miss:
  "find P xs = None \<Longrightarrow> find P (xs @ ys) = find P ys"
  by (induction xs) (simp_all split: if_splits)

lemma userWithoutPassword_id:
  "map_of (userWithoutPassword u) ''id'' = Some (JNum (int (u_id u)))"
  by (simp add: userWithoutPassword_def without_key_def user_object_def)

text \<open>
  C3. Let \<open>register\<close> succeed. Provided bcrypt accepts the password against the hash it
  made of it, and the bearer tokens signed at registration time and at login time
  verify at the time \<open>now_v\<close> to the id they were signed for (the contract of the two
  libraries within the token's life), a following \<open>login\<close> with the same email and
  password succeeds, the user created is the row the email selects, and \<open>verifyToken\<close>
  on the token of either result gives that user's id.
\<close>

theorem register_then_login_roundtrip:
  assumes reg: "register E today_check now today_incr salt vtok d userData = (Inr res, d')"
      and bcrypt: "bcrypt_compare E (ri_password userData)
                     (bcrypt_hash E (ri_password userData) 10 salt)"
      and jwt_reg: "\<And>uid. \<exists>pl. jwt_verify E (jwt_sign E uid (JWT_SECRET E) (expiresIn E) now)
                               (JWT_SECRET E) now_v = Inr pl \<and> jp_userId pl = uid"
      and jwt_login: "\<And>uid. \<exists>pl. jwt_verify E (jwt_sign E uid (JWT_SECRET E) (expiresIn E) now_l)
                               (JWT_SECRET E) now_v = Inr pl \<and> jp_userId pl = uid"
  shows "\<exists>uid lres pr pl.
           map_of (rr_user res) ''id'' = Some (JNum (int uid))
         \<and> map_option u_id (find (\<lambda>u. u_email u = ri_email userData) (users d')) = Some uid
         \<and> login E now_l d' (ri_email userData) (ri_password userData) = Inr lres
         \<and> map_of (lr_user lres) ''id'' = Some (JNum (int uid))
         \<and> verifyToken E now_v (rr_token res) = Inr pr \<and> jp_userId pr = uid
         \<and> verifyToken E now_v (lr_token lres) = Inr pl \<and> jp_userId pl = uid"
proof -
  define newUser where "newUser =
     \<lparr>u_id = users_seq d + 1, u_email = ri_email userData, u_username = ri_username userData,
      u_password = bcrypt_hash E (ri_password userData) 10 salt,
      u_avatar = or_default (ri_avatar userData) ''avatar_1'',
      u_isVerified = False, u_preferences = JObj [], u_createdAt = now, u_updatedAt = now\<rparr>"
  from register_success[OF reg]
  have miss: "find (\<lambda>u. u_email u = ri_email userData) (users d) = None"
    and res: "res = \<lparr>rr_user = userWithoutPassword newUser,
                      rr_token = generateJWT E now (users_seq d + 1), rr_verificationToken = vtok\<rparr>"
    and us: "users d' = users d @ [newUser]"
    by (simp_all add: newUser_def)
  have nu: "u_id newUser = users_seq d + 1" "u_email newUser = ri_email userData"
    "u_password newUser = bcrypt_hash E (ri_password userData) 10 salt"
    by (simp_all add: newUser_def)
  have found: "find (\<lambda>u. u_email u = ri_email userData) (users d') = Some newUser"
    by (simp add: us find_append_miss[OF miss] nu)
  define lres where "lres = \<lparr>lr_user = userWithoutPassword newUser,
                              lr_token = generateJWT E now_l (u_id newUser)\<rparr>"
  have lg: "login E now_l d' (ri_email userData) (ri_password userData) = Inr lres"
    using bcrypt by (simp add: login_def found nu lres_def)
  from jwt_reg[of "users_seq d + 1"] obtain pr where
    pr: "jwt_verify E (jwt_sign E (users_seq d + 1) (JWT_SECRET E) (expiresIn E) now)
           (JWT_SECRET E) now_v = Inr pr" "jp_userId pr = users_seq d + 1"
    by blast
  from jwt_login[of "users_seq d + 1"] obtain pl where
    pl: "jwt_verify E (jwt_sign E (users_seq d + 1) (JWT_SECRET E) (expiresIn E) now_l)
           (JWT_SECRET E) now_v = Inr pl" "jp_userId pl = users_seq d + 1"
    by blast
  have v1: "verifyToken E now_v (rr_token res) = Inr pr"
    using pr(1) by (simp add: verifyToken_def res generateJWT_def)
  have v2: "verifyToken E now_v (lr_token lres) = Inr pl"
    using pl(1) by (simp add: verifyToken_def lres_def generateJWT_def nu)
  have i1: "map_of (rr_user res) ''id'' = Some (JNum (int (users_seq d + 1)))"
    by (simp add: res userWithoutPassword_id nu)
  have i2: "map_of (lr_user lres) ''id'' = Some (JNum (int (users_seq d + 1)))"
    by (simp add: lres_def userWithoutPassword_id nu)
  have f: "map_option u_id (find (\<lambda>u. u_email u = ri_email userData) (users d')) = Some (users_seq d + 1)"
    by (simp add: found nu)
  from i1 f lg i2 v1 pr(2) v2 pl(2) show ?thesis by blast
qed


lemma sample_jwt_roundtrip:
  "\<exists>pl. jwt_verify sample_env
           (jwt_sign sample_env uid (JWT_SECRET sample_env) (expiresIn sample_env) t)
           (JWT_SECRET sample_env) t' = Inr pl \<and> jp_userId pl = uid"
  by (simp add: sample_env_def)

theorem register_then_login_roundtrip_witness:
  "bcrypt_compare sample_env (ri_password carol) (bcrypt_hash sample_env (ri_password carol) 10 0)
   \<and> fst (register sample_env ''2024-01-01'' 0 ''2024-01-01'' 0 ''cccc'' sample_db carol) =
       Inr \<lparr>rr_user = userWithoutPassword carol_row, rr_token = ''s3cretuuu'',
            rr_verificationToken = ''cccc''\<rparr>
   \<and> (\<exists>lres pr pl.
         login sample_env 1
           (snd (register sample_env ''2024-01-01'' 0 ''2024-01-01'' 0 ''cccc'' sample_db carol))
           (ri_email carol) (ri_password carol) = Inr lres
       \<and> map_of (lr_user lres) ''id'' = Some (JNum 3)
       \<and> verifyToken sample_env 2 ''s3cretuuu'' = Inr pr \<and> jp_userId pr = 3
       \<and> verifyToken sample_env 2 (lr_token lres) = Inr pl \<and> jp_userId pl = 3)"
proof -
  let ?R = "\<lparr>rr_user = userWithoutPassword carol_row, rr_token = ''s3cretuuu'',
              rr_verificationToken = ''cccc''\<rparr>"
  let ?D = "snd (register sample_env ''2024-01-01'' 0 ''2024-01-01'' 0 ''cccc'' sample_db carol)"
  have r: "register sample_env ''2024-01-01'' 0 ''2024-01-01'' 0 ''cccc'' sample_db carol = (Inr ?R, ?D)"
    using sample_register by (simp add: prod_eq_iff)
  have b: "bcrypt_compare sample_env (ri_password carol)
             (bcrypt_hash sample_env (ri_password carol) 10 0)"
    by (simp add: sample_env_def)
  from register_then_login_roundtrip[OF r b sample_jwt_roundtrip sample_jwt_roundtrip,
      where now_l = 1 and now_v = 2]
  obtain uid lres pr pl where
    w: "map_of (rr_user ?R) ''id'' = Some (JNum (int uid))"
       "login sample_env 1 ?D (ri_email carol) (ri_password carol) = Inr lres"
       "map_of (lr_user lres) ''id'' = Some (JNum (int uid))"
       "verifyToken sample_env 2 (rr_token ?R) = Inr pr" "jp_userId pr = uid"
       "verifyToken sample_env 2 (lr_token lres) = Inr pl" "jp_userId pl = uid"
    by blast
  have "map_of (rr_user ?R) ''id'' = Some (JNum 3)"
    by (simp add: userWithoutPassword_id carol_row_def)
  with w(1) have uid: "uid = 3" by simp
  from w uid have "login sample_env 1 ?D (ri_email carol) (ri_password carol) = Inr lres
       \<and> map_of (lr_user lres) ''id'' = Some (JNum 3)
       \<and> verifyToken sample_env 2 ''s3cretuuu'' = Inr pr \<and> jp_userId pr = 3
       \<and> verifyToken sample_env 2 (lr_token lres) = Inr pl \<and> jp_userId pl = 3"
    by simp
  then have "\<exists>lres pr pl.
         login sample_env 1 ?D (ri_email carol) (ri_password carol) = Inr lres
       \<and> map_of (lr_user lres) ''id'' = Some (JNum 3)
       \<and> verifyToken sample_env 2 ''s3cretuuu'' = Inr pr \<and> jp_userId pr = 3
       \<and> verifyToken sample_env 2 (lr_token lres) = Inr pl \<and> jp_userId pl = 3"
    by blast
  with b sample_register show ?thesis by simp
qed


section \<open>C4: the daily signup limit\<close>

lemma find_map_same_test:
  assumes "\<And>x. P (f x) = P x"
  shows "find P (map f xs) = map_option f (find P xs)"
  by (induction xs) (simp_all add: assms)

lemma signup_count_insert_absent:
  "find (\<lambda>r. ds_date r = day) (dailySignups d) = None \<Longrightarrow>
     signup_count (insert_dailySignup day n d) day = n"
  by (simp add: signup_count_def insert_dailySignup_def find_append_miss)

lemma signup_count_check [simp]:
  "signup_count (snd (checkDailySignupLimit E day d)) day = signup_count d day"
proof (cases "find (\<lambda>r. ds_date r = day) (dailySignups d)")
  case None
  then show ?thesis
    by (simp add: checkDailySignupLimit_def Let_def signup_count_insert_absent)
       (simp add: signup_count_def)
next
  case (Some r)
  then show ?thesis by (simp add: checkDailySignupLimit_def Let_def)
qed

lemma check_allowed_iff:
  assumes "0 < signup_limit E"
  shows "lc_allowed (fst (checkDailySignupLimit E day d)) \<longleftrightarrow> signup_count d day < signup_limit E"
proof (cases "find (\<lambda>r. ds_date r = day) (dailySignups d)")
  case None
  with assms show ?thesis by (simp add: checkDailySignupLimit_def Let_def signup_count_def)
next
  case (Some r)
  then show ?thesis by (simp add: checkDailySignupLimit_def Let_def signup_count_def)
qed

lemma signup_count_increment:
  "signup_count (incrementSignupCount day d) day = signup_count d day + 1"
proof (cases "find (\<lambda>r. ds_date r = day) (dailySignups d)")
  case None
  then show ?thesis
    by (simp add: incrementSignupCount_def signup_count_insert_absent) (simp add: signup_count_def)
next
  case (Some r)
  let ?f = "\<lambda>x. if ds_id x = ds_id r then x\<lparr>ds_count := ds_count r + 1\<rparr> else x"
  have "find (\<lambda>x. ds_date x = day) (map ?f (dailySignups d))
          = map_option ?f (find (\<lambda>x. ds_date x = day) (dailySignups d))"
    by (rule find_map_same_test) simp
  with Some show ?thesis
    by (simp add: incrementSignupCount_def signup_count_def)
qed

lemma dailySignups_insert_verification_token [simp]:
  "dailySignups (insert_verification_token uid tok ex d) = dailySignups d"
  by (simp add: insert_verification_token_def)

lemma signup_count_cong:
  "dailySignups d = dailySignups d' \<Longrightarrow> signup_count d day = signup_count d' day"
  by (simp add: signup_count_def)

text \<open>A successful registration whose two date keys agree adds exactly one to the day.\<close>

lemma register_increments:
  assumes "register E day now day salt vtok d userData = (Inr res, d')"
  shows "signup_count d' day = signup_count d day + 1"
proof -
  let ?d0 = "snd (checkDailySignupLimit E day d)"
  from register_success[OF assms] obtain u where
    d': "d' = incrementSignupCount day
               (insert_verification_token (users_seq d + 1) vtok (now + 24 * 60 * 60 * 1000)
                 (?d0\<lparr>users := users d @ [u], users_seq := users_seq d + 1\<rparr>))"
    by blast
  have "signup_count d' day =
        signup_count (insert_verification_token (users_seq d + 1) vtok (now + 24 * 60 * 60 * 1000)
                 (?d0\<lparr>users := users d @ [u], users_seq := users_seq d + 1\<rparr>)) day + 1"
    unfolding d' by (rule signup_count_increment)
  also have "signup_count (insert_verification_token (users_seq d + 1) vtok (now + 24 * 60 * 60 * 1000)
                 (?d0\<lparr>users := users d @ [u], users_seq := users_seq d + 1\<rparr>)) day
             = signup_count ?d0 day"
    by (rule signup_count_cong) simp
  finally show ?thesis by simp
qed

lemma register_all_count:
  "register_all E day d reqs = Some d' \<Longrightarrow>
     signup_count d' day = signup_count d day + int (length reqs)"
proof (induction reqs arbitrary: d)
  case Nil
  then show ?case by simp
next
  case (Cons q qs)
  obtain r d1 where st: "register E day (sr_now q) day (sr_salt q) (sr_token q) d (sr_data q) = (r, d1)"
    by (cases "register E day (sr_now q) day (sr_salt q) (sr_token q) d (sr_data q)")
  show ?case
  proof (cases r)
    case (Inl e)
    with Cons.prems st show ?thesis by simp
  next
    case (Inr res)
    with Cons.prems st have "register_all E day d1 qs = Some d'" by simp
    then have "signup_count d' day = signup_count d1 day + int (length qs)"
      by (rule Cons.IH)
    moreover have "signup_count d1 day = signup_count d day + 1"
      using st Inr by (intro register_increments) simp
    ultimately show ?thesis by simp
  qed
qed

lemma register_denied:
  assumes "\<not> lc_allowed (fst (checkDailySignupLimit E day d))"
  shows "fst (register E day now day' salt vtok d userData) =
           Inl (Error ''Daily signup limit reached. Please try again tomorrow.'')"
proof (cases "find (\<lambda>r. ds_date r = day) (dailySignups d)")
  case None
  with assms show ?thesis by (simp add: checkDailySignupLimit_def Let_def)
next
  case (Some r)
  with assms have "ds_count r \<ge> signup_limit E"
    by (simp add: checkDailySignupLimit_def Let_def split: if_splits)
  with Some show ?thesis
    by (simp add: register_def checkDailySignupLimit_def Let_def)
qed

text \<open>
  C4. Let the limit be 300 and let a run of registrations, all on the date key \<open>day\<close>,
  all succeed from the store \<open>d\<close>. The day's count has grown by exactly one for each of
  them. If that brings the count to 299, the limit check allows the next reservation
  (the 300th); if it brings the count to 300, the check denies the next one (the 301st)
  and \<open>register\<close> fails with the limit message.
\<close>

theorem daily_limit_300:
  "signup_limit E = 300 \<and> register_all E day d reqs = Some d' \<longrightarrow>
     signup_count d' day = signup_count d day + int (length reqs)
     \<and> (signup_count d day + int (length reqs) = 299 \<longrightarrow>
          lc_allowed (fst (checkDailySignupLimit E day d')))
     \<and> (signup_count d day + int (length reqs) = 300 \<longrightarrow>
          \<not> lc_allowed (fst (checkDailySignupLimit E day d'))
          \<and> fst (register E day now day' salt vtok d' userData) =
              Inl (Error ''Daily signup limit reached. Please try again tomorrow.''))"
proof (intro impI)
  assume a: "signup_limit E = 300 \<and> register_all E day d reqs = Some d'"
  then have ra: "register_all E day d reqs = Some d'" by simp
  have c: "signup_count d' day = signup_count d day + int (length reqs)"
    using ra by (rule register_all_count)
  from a have iff: "lc_allowed (fst (checkDailySignupLimit E day d')) \<longleftrightarrow> signup_count d' day < 300"
    using check_allowed_iff[of E day d'] by simp
  have p: "lc_allowed (fst (checkDailySignupLimit E day d'))"
    if "signup_count d day + int (length reqs) = 299"
    using that c iff by simp
  have q: "\<not> lc_allowed (fst (checkDailySignupLimit E day d'))"
    if "signup_count d day + int (length reqs) = 300"
    using that c iff by simp
  have r: "fst (register E day now day' salt vtok d' userData) =
              Inl (Error ''Daily signup limit reached. Please try again tomorrow.'')"
    if "signup_count d day + int (length reqs) = 300"
    using q[OF that] by (rule register_denied)
  from c p q r
  show "signup_count d' day = signup_count d day + int (length reqs)
     \<and> (signup_count d day + int (length reqs) = 299 \<longrightarrow>
          lc_allowed (fst (checkDailySignupLimit E day d')))
     \<and> (signup_count d day + int (length reqs) = 300 \<longrightarrow>
          \<not> lc_allowed (fst (checkDailySignupLimit E day d'))
          \<and> fst (register E day now day' salt vtok d' userData) =
              Inl (Error ''Daily signup limit reached. Please try again tomorrow.''))"
    by blast
qed


lemma busy_check:
  "checkDailySignupLimit sample_env ''2024-01-01'' (busy_db n) =
     (if n \<ge> 300
      then \<lparr>lc_allowed = False, lc_count = n, lc_limit = 300,
             lc_message = Some ''Daily signup limit reached. Please try again tomorrow.''\<rparr>
      else \<lparr>lc_allowed = True, lc_count = n, lc_limit = 300, lc_message = None\<rparr>,
      busy_db n)"
  by (simp add: checkDailySignupLimit_def signup_limit_def sample_env_def busy_db_def)

lemma users_busy [simp]: "users (busy_db n) = [alice, bob]" "users_seq (busy_db n) = 2"
  by (simp_all add: busy_db_def sample_db_def)

lemma busy_register_ok:
  "n < 300 \<Longrightarrow> \<exists>res. fst (register sample_env ''2024-01-01'' 0 ''2024-01-01'' 0 ''cccc''
                          (busy_db n) carol) = Inr res"
  unfolding register_def busy_check
  by (simp add: Let_def insert_user_def) (simp add: alice_def bob_def carol_def)

lemma busy_register_all:
  assumes "n < 300"
  shows "register_all sample_env ''2024-01-01'' (busy_db n) [carol_request] =
           Some (snd (register sample_env ''2024-01-01'' 0 ''2024-01-01'' 0 ''cccc'' (busy_db n) carol))"
proof -
  from busy_register_ok[OF assms] obtain res where
    "fst (register sample_env ''2024-01-01'' 0 ''2024-01-01'' 0 ''cccc'' (busy_db n) carol) = Inr res"
    by blast
  then obtain D where
    D: "register sample_env ''2024-01-01'' 0 ''2024-01-01'' 0 ''cccc'' (busy_db n) carol = (Inr res, D)"
    by (cases "register sample_env ''2024-01-01'' 0 ''2024-01-01'' 0 ''cccc'' (busy_db n) carol") simp
  then show ?thesis
    by (simp add: carol_request_def)
qed

lemma busy_count: "signup_count (busy_db n) ''2024-01-01'' = n"
  by (simp add: signup_count_def busy_db_def)

theorem daily_limit_300_witness:
  "signup_limit sample_env = 300
   \<and> signup_count (busy_db 298) ''2024-01-01'' + int (length [carol_request]) = 299
   \<and> signup_count (busy_db 299) ''2024-01-01'' + int (length [carol_request]) = 300
   \<and> (\<exists>d'. register_all sample_env ''2024-01-01'' (busy_db 298) [carol_request] = Some d'
          \<and> signup_count d' ''2024-01-01'' = 299
          \<and> lc_allowed (fst (checkDailySignupLimit sample_env ''2024-01-01'' d')))
   \<and> (\<exists>d'. register_all sample_env ''2024-01-01'' (busy_db 299) [carol_request] = Some d'
          \<and> signup_count d' ''2024-01-01'' = 300
          \<and> \<not> lc_allowed (fst (checkDailySignupLimit sample_env ''2024-01-01'' d'))
          \<and> fst (register sample_env ''2024-01-01'' 5 ''2024-01-01'' 1 ''dddd'' d' carol) =
              Inl (Error ''Daily signup limit reached. Please try again tomorrow.''))"
proof -
  have l: "signup_limit sample_env = 300"
    by (simp add: signup_limit_def sample_env_def)
  have c8: "signup_count (busy_db 298) ''2024-01-01'' + int (length [carol_request]) = 299"
    and c9: "signup_count (busy_db 299) ''2024-01-01'' + int (length [carol_request]) = 300"
    by (simp_all add: busy_count)
  let ?d8 = "snd (register sample_env ''2024-01-01'' 0 ''2024-01-01'' 0 ''cccc'' (busy_db 298) carol)"
  let ?d9 = "snd (register sample_env ''2024-01-01'' 0 ''2024-01-01'' 0 ''cccc'' (busy_db 299) carol)"
  have r8: "register_all sample_env ''2024-01-01'' (busy_db 298) [carol_request] = Some ?d8"
    by (rule busy_register_all) simp
  have r9: "register_all sample_env ''2024-01-01'' (busy_db 299) [carol_request] = Some ?d9"
    by (rule busy_register_all) simp
  from daily_limit_300[where E = sample_env and day = "''2024-01-01''" and d = "busy_db 298"
      and reqs = "[carol_request]" and d' = ?d8] l r8 c8
  have w8: "signup_count ?d8 ''2024-01-01'' = 299
        \<and> lc_allowed (fst (checkDailySignupLimit sample_env ''2024-01-01'' ?d8))"
    by simp
  from daily_limit_300[where E = sample_env and day = "''2024-01-01''" and d = "busy_db 299"
      and reqs = "[carol_request]" and d' = ?d9 and now = 5 and day' = "''2024-01-01''"
      and salt = 1 and vtok = "''dddd''" and userData = carol] l r9 c9
  have w9: "signup_count ?d9 ''2024-01-01'' = 300
        \<and> \<not> lc_allowed (fst (checkDailySignupLimit sample_env ''2024-01-01'' ?d9))
        \<and> fst (register sample_env ''2024-01-01'' 5 ''2024-01-01'' 1 ''dddd'' ?d9 carol) =
              Inl (Error ''Daily signup limit reached. Please try again tomorrow.'')"
    by simp
  from l c8 c9 r8 w8 r9 w9 show ?thesis by blast
qed

section \<open>C7: sync replaces a collection\<close>

lemma those_all_Some:
  "\<forall>x \<in> set xs. x \<noteq> None \<Longrightarrow> \<exists>ys. those xs = Some ys \<and> map Some ys = xs"
proof (induction xs)
  case Nil
  then show ?case by simp
next
  case (Cons x xs)
  then obtain ys where ys: "those xs = Some ys" "map Some ys = xs" by auto
  from Cons.prems obtain y where "x = Some y" by auto
  with ys show ?case by simp
qed


lemma numbered_rows_total:
  assumes "\<And>i x. x \<in> set items \<Longrightarrow> row_of i x \<noteq> None"
  shows "\<exists>rows. numbered_rows row_of seq items = Some rows
           \<and> map Some rows = map2 row_of [Suc seq ..< Suc seq + length items] items"
proof -
  have "\<forall>v \<in> set (map2 row_of [Suc seq ..< Suc seq + length items] items). v \<noteq> None"
    using assms by (auto dest: set_zip_rightD)
  from those_all_Some[OF this] show ?thesis
    by (simp add: numbered_rows_def)
qed






lemma references_user_cong:
  "users d' = users d \<Longrightarrow> references_user d' u = references_user d u"
  by (simp add: references_user_def)

lemma sync_favorites_frame [simp]:
  "watchlist (snd (sync_favorites u xs d)) = watchlist d"
  "watchHistory (snd (sync_favorites u xs d)) = watchHistory d"
  "watchlist_seq (snd (sync_favorites u xs d)) = watchlist_seq d"
  "watchHistory_seq (snd (sync_favorites u xs d)) = watchHistory_seq d"
  "users (snd (sync_favorites u xs d)) = users d"
  by (cases "numbered_rows (favorite_row_of u) (favorites_seq d) xs";
      simp add: sync_favorites_def Let_def)+

lemma sync_watchlist_frame [simp]:
  "favorites (snd (sync_watchlist u xs d)) = favorites d"
  "watchHistory (snd (sync_watchlist u xs d)) = watchHistory d"
  "watchHistory_seq (snd (sync_watchlist u xs d)) = watchHistory_seq d"
  "users (snd (sync_watchlist u xs d)) = users d"
  by (cases "numbered_rows (watchlist_row_of u) (watchlist_seq d) xs";
      simp add: sync_watchlist_def Let_def)+

lemma sync_watchHistory_frame [simp]:
  "favorites (snd (sync_watchHistory now u xs d)) = favorites d"
  "watchlist (snd (sync_watchHistory now u xs d)) = watchlist d"
  by (cases "numbered_rows (history_row_of now u) (watchHistory_seq d) xs";
      simp add: sync_watchHistory_def Let_def)+














text \<open>
  A history entry whose \<open>progress\<close> does not fit the \<^verbatim>\<open>integer\<close> column: the user's
  history is deleted, the insert raises, and a following fetch returns no history.
\<close>

lemma history_row_of_out_of_range:
  assumes "hi_progress item = Some p" and "\<not> int32 p"
  shows "history_row_of now u rid item = None"
  using assms by (simp add: history_row_of_def Let_def split: option.splits)

lemma sync_watchHistory_out_of_range:
  assumes "hi_progress item = Some p" and "\<not> int32 p"
  shows "fst (sync_watchHistory now u [item] d) = Some StoreError
         \<and> filter (\<lambda>h. wh_userId h = u) (watchHistory (snd (sync_watchHistory now u [item] d))) = []"
proof -
  have n: "numbered_rows (history_row_of now u) s [item] = None" for s
    using history_row_of_out_of_range[OF assms] by (simp add: numbered_rows_def upt_rec)
  show ?thesis
    by (simp add: sync_watchHistory_def Let_def n)
qed


end
